theory Spec2Isabelle
  imports Main "HOL-Library.Word"
begin

section \<open>Status codes, failures and the trace log\<close>

text \<open>
  The status codes that \<open>segment_reader.cpp\<close> returns or tests by name. A collaborator
  (stream, column reader, index reader) may return any other code: \<open>OLAP_ERR_OTHER n\<close>.
\<close>

datatype OLAPStatus =
    OLAP_SUCCESS
  | OLAP_ERR_MALLOC_ERROR
  | OLAP_ERR_INPUT_PARAMETER_ERROR
  | OLAP_ERR_FILE_FORMAT_ERROR
  | OLAP_ERR_COLUMN_STREAM_EOF
  | OLAP_ERR_DATA_EOF
  | OLAP_ERR_COLUMN_SEEK_ERROR
  | OLAP_ERR_OTHER int

text \<open>
  How a call can end without a normal result: it returns an error status; it reads or
  writes outside an array or through a null pointer (undefined behaviour in C++); it
  reaches \<open>LOG(FATAL)\<close>, which ends the process; \<open>std::map::at\<close> throws.
\<close>

datatype failure =
    Returned OLAPStatus
  | UndefinedBehaviour
  | ProcessAbort
  | OutOfRangeThrown

text \<open>
  Modelled from the spec: the enumeration \<open>DelCondSatisfied\<close> is declared in a header
  that is not part of the sources at hand. The spec names the three dispositions
  Excluded, Include and RequiresRowFilter; the array is a byte array that
  \<open>_init_include_blocks\<close> fills with \<open>memset 0\<close> (Excluded, \<open>DEL_SATISFIED\<close>) and
  \<open>memset 1\<close> (Include, \<open>DEL_NOT_SATISFIED\<close>).
\<close>

datatype DelCondSatisfied =
    DEL_SATISFIED            \<comment> \<open>byte 0: Excluded\<close>
  | DEL_NOT_SATISFIED        \<comment> \<open>byte 1: Include\<close>
  | DEL_PARTIAL_SATISFIED    \<comment> \<open>RequiresRowFilter\<close>

datatype FieldAggregationMethod =
    OLAP_FIELD_AGGREGATION_NONE
  | OLAP_FIELD_AGGREGATION_OTHER

text \<open>The \<open>VLOG_TRACE\<close> lines of the pruning functions, without their timings.\<close>

datatype trace_event =
    PickFrom nat nat                  \<comment> \<open>"pick from .. to .."\<close>
  | PickForDelete nat nat             \<comment> \<open>"pick for .. to .. for delete_condition"\<close>
  | SegmentNotSatisfyDelete           \<comment> \<open>"the segment not satisfy the delete_conditions"\<close>
  | FilterBlockPartially nat          \<comment> \<open>"filter block partially: j"\<close>
  | FilterBlock nat                   \<comment> \<open>"filter block: j"\<close>
  | BloomFilterIgnored nat            \<comment> \<open>"bloom filter is ignored for too few block remained"\<close>
  | PickRowGroupsFinished nat         \<comment> \<open>"pick row groups finished"\<close>

section \<open>Collaborators and reader state\<close>

text \<open>
  One column of a delete condition: \<open>del_eval\<close> on a zone-map statistic. One column of the
  user conditions: \<open>eval\<close> on a zone-map statistic and \<open>eval\<close> on a bloom-filter entry.
\<close>

record 'stat DeleteConditions =
  filter_version :: int
  del_cond_columns :: "(nat \<times> ('stat \<Rightarrow> DelCondSatisfied)) list"

record ('stat, 'bf) CondColumn =
  eval_stat :: "'stat \<Rightarrow> bool"
  eval_bf :: "'bf \<Rightarrow> bool"

text \<open>A stream descriptor of the segment header; the kinds of data streams are \<open>OTHER_KIND\<close>.\<close>

datatype Kind = ROW_INDEX | BLOOM_FILTER | OTHER_KIND nat

record StreamInfoMessage =
  message_length :: "64 word"
  message_column_unique_id :: nat
  message_kind :: Kind

text \<open>
  Modelled from the spec: the macros that serialise a cache key are not part of the
  sources at hand; the key is built from the file path, the column's unique id and the
  stream kind, and the model keeps the triple.
\<close>

type_synonym CacheKey = "string \<times> nat \<times> Kind"

text \<open>
  A parsed zone-map or bloom-filter reader: the buffer it reads, the entry count that its
  \<open>init\<close> found, and the \<open>is_using_cache\<close> flag that \<open>init\<close> was given (the buffer
  belongs to the cache, the reader must not free it).
\<close>

record IndexReader =
  reader_buffer :: string
  reader_entry_count :: int
  reader_is_using_cache :: bool

text \<open>
  What the reader is constructed with, the header of the segment, and what the
  collaborators answer (streams, decoders, index parsers, allocator, cache insertion).
  \<open>expected_blocks\<close> is the value of the floating-point expression
  \<open>ceil(number_of_rows / num_rows_per_block)\<close>, and \<open>included_row_index_stream_num\<close> the
  result of \<open>_get_included_row_index_stream_num()\<close>, which is defined in the header file.
  \<open>include_columns\<close> and \<open>include_bf_columns\<close> are the sets that \<open>_pick_columns\<close> fills.
  The maps between the column ids are the ones that \<open>_set_column_map\<close> builds. An answer
  of a collaborator depends on the arguments shown only: \<open>column_reader_seek env cid b\<close>
  is the status of \<open>_column_readers[cid]->seek\<close> at the position of block \<open>b\<close>,
  \<open>read_all env off len\<close> the status and the bytes of \<open>stream.read_all\<close> after
  \<open>stream.reset(off, len)\<close>, \<open>index_reader_init env kind buf\<close> the status of \<open>init\<close> on
  the buffer and the \<open>entry_count()\<close> of the reader.
\<close>

record ('stat, 'bf) Env =
  delete_conditions :: "'stat DeleteConditions list"
  delete_status :: DelCondSatisfied
  segment_version_first :: int
  conditions :: "(nat \<times> ('stat, 'bf) CondColumn) list option"
  used_columns :: "nat list"
  load_bf_columns :: "nat list"
  aggregation_by_index :: "nat \<Rightarrow> FieldAggregationMethod"
  tablet_id_to_unique_id_map :: "nat \<rightharpoonup> nat"
  unique_id_to_segment_id_map :: "nat \<rightharpoonup> nat"
  include_columns :: "nat set"
  include_bf_columns :: "nat set"
  num_columns :: nat
  file_name :: string
  header_length :: "64 word"
  stream_info :: "StreamInfoMessage list"
  number_of_rows :: int
  expected_blocks :: int
  included_row_index_stream_num :: nat
  entry_statistic :: "string \<Rightarrow> nat \<Rightarrow> 'stat"
  bloom_entry :: "string \<Rightarrow> nat \<Rightarrow> 'bf"
  nothrow_new :: "nat \<Rightarrow> bool"
  nothrow_new_reader :: "nat \<Rightarrow> Kind \<Rightarrow> bool"
  index_stream_init :: OLAPStatus
  read_all :: "64 word \<Rightarrow> 64 word \<Rightarrow> OLAPStatus \<times> string"
  cache_insert_ok :: "CacheKey \<Rightarrow> bool"
  index_reader_init :: "Kind \<Rightarrow> string \<Rightarrow> OLAPStatus \<times> int"
  data_stream_new_ok :: "64 word \<Rightarrow> 64 word \<Rightarrow> bool"
  data_stream_init :: "64 word \<Rightarrow> 64 word \<Rightarrow> OLAPStatus"
  data_stream_buffer_size :: "64 word \<Rightarrow> 64 word \<Rightarrow> 64 word"
  column_reader_create_ok :: "nat \<Rightarrow> bool"
  column_reader_init :: "nat \<Rightarrow> OLAPStatus"
  column_reader_buffer_size :: "nat \<Rightarrow> 64 word"
  column_reader_seek :: "nat \<Rightarrow> int \<Rightarrow> OLAPStatus"
  column_reader_next_vector :: "nat \<Rightarrow> int \<Rightarrow> OLAPStatus"

text \<open>
  The mutable fields of \<open>SegmentReader\<close>, and the contents of the shared cache that
  \<open>_lru_cache\<close> points to. \<open>include_blocks\<close> is \<open>None\<close> for the null pointer; a cache
  handle, a column reader and a column index are \<open>None\<close> for the null pointer too.
  \<open>remain_block\<close> has the unsigned 32-bit type of the expression
  \<open>last_block - first_block + 1\<close> that \<open>seek_to_block\<close> stores in it. Block ids are the
  signed 64-bit integers of the loops; row counts are integers, their widths being
  declared in files that are not at hand.
\<close>

record SegmentReader =
  eof :: bool
  end_block :: int
  current_block_id :: int
  next_block_id :: int
  block_count :: int
  num_rows_in_block :: int
  include_blocks :: "DelCondSatisfied list option"
  remain_block :: "32 word"
  without_filter :: bool
  need_to_seek_block :: bool
  is_data_loaded :: bool
  buffer_size :: "64 word"
  streams :: "(nat \<times> Kind) \<rightharpoonup> (64 word \<times> 64 word)"
  column_readers :: "nat option list"
  column_indices :: "IndexReader option list"
  indices :: "nat \<rightharpoonup> IndexReader"
  bloom_filters :: "nat \<rightharpoonup> IndexReader"
  cache_handle :: "CacheKey option list"
  lru_cache :: "CacheKey \<rightharpoonup> string"
  rows_del_filtered :: int
  rows_stats_filtered :: int
  blocks_load :: int
  raw_rows_read :: int
  vlog_trace :: "trace_event list"

text \<open>The batch that \<open>get_block\<close> fills: its columns, its limit, and what the load sets.\<close>

record VectorizedRowBatch =
  batch_columns :: "nat list"
  batch_limit :: int
  batch_size :: int
  batch_block_status :: DelCondSatisfied

text \<open>\<open>std::map::operator[]\<close> on a key that is absent yields the default value 0.\<close>

definition map_index :: "(nat \<rightharpoonup> nat) \<Rightarrow> nat \<Rightarrow> nat" where
  "map_index m k = (case m k of None \<Rightarrow> 0 | Some v \<Rightarrow> v)"

text \<open>
  \<open>memset(p + off, v, n)\<close> on an array: inside the array it overwrites \<open>n\<close> cells from
  \<open>off\<close>; reaching past the end is undefined behaviour.
\<close>

definition memset_at :: "'a list \<Rightarrow> nat \<Rightarrow> 'a \<Rightarrow> nat \<Rightarrow> failure + 'a list" where
  "memset_at bs off v n =
     (if off + n \<le> length bs
      then Inr (take off bs @ replicate n v @ drop (off + n) bs)
      else Inl UndefinedBehaviour)"

text \<open>
  The telemetry of an excluded block \<open>j\<close>: a full block, or for the last block what is
  left of the rows.
\<close>

definition rows_of_block :: "('stat, 'bf) Env \<Rightarrow> SegmentReader \<Rightarrow> nat \<Rightarrow> int" where
  "rows_of_block env r j =
     (if int j < block_count r - 1 then num_rows_in_block r
      else number_of_rows env - int j * num_rows_in_block r)"

section \<open>Row-group pruning\<close>

subsection \<open>\<open>_pick_delete_row_groups\<close>\<close>

text \<open>
  The loop over the columns of one delete condition for block \<open>j\<close>. The result is the pair
  \<open>(del_partial_satisfied, del_not_satisfied)\<close>; the loop breaks at the first column that
  is not satisfied. \<open>_indices[unique_column_id]\<close> is null when no index was loaded for the
  column.
\<close>

fun del_eval_columns ::
  "('stat, 'bf) Env \<Rightarrow> SegmentReader \<Rightarrow> nat \<Rightarrow> (nat \<times> ('stat \<Rightarrow> DelCondSatisfied)) list
     \<Rightarrow> bool \<Rightarrow> failure + bool \<times> bool"
where
  "del_eval_columns env r j [] del_partial_satisfied = Inr (del_partial_satisfied, False)"
| "del_eval_columns env r j ((table_column_id, del_eval) # cols) del_partial_satisfied =
     (let unique_column_id = map_index (tablet_id_to_unique_id_map env) table_column_id in
      if unique_id_to_segment_id_map env unique_column_id = None
      then del_eval_columns env r j cols del_partial_satisfied
      else
        (case indices r unique_column_id of
           None \<Rightarrow> Inl UndefinedBehaviour
         | Some index_reader \<Rightarrow>
             (let del_ret = del_eval (entry_statistic env (reader_buffer index_reader) j) in
              if del_ret = DEL_SATISFIED then del_eval_columns env r j cols del_partial_satisfied
              else if del_ret = DEL_PARTIAL_SATISFIED then del_eval_columns env r j cols True
              else Inr (del_partial_satisfied, True))))"

text \<open>The body of the loop over the blocks, for one delete condition and one block.\<close>

definition pick_delete_block ::
  "('stat, 'bf) Env \<Rightarrow> 'stat DeleteConditions \<Rightarrow> nat \<Rightarrow> SegmentReader \<Rightarrow> failure + SegmentReader"
where
  "pick_delete_block env delete_condition j r =
     (case include_blocks r of
        None \<Rightarrow> Inl UndefinedBehaviour
      | Some bs \<Rightarrow>
          if length bs \<le> j then Inl UndefinedBehaviour
          else if bs ! j = DEL_SATISFIED then Inr r
          else
            (case del_eval_columns env r j (del_cond_columns delete_condition) False of
               Inl e \<Rightarrow> Inl e
             | Inr (del_partial_satisfied, del_not_satisfied) \<Rightarrow>
                 if del_not_satisfied \<or> length (del_cond_columns delete_condition) = 0 then
                   (if bs ! j = DEL_PARTIAL_SATISFIED then Inr r
                    else Inr (r\<lparr>include_blocks := Some (bs[j := DEL_NOT_SATISFIED])\<rparr>))
                 else if del_partial_satisfied then
                   Inr (r\<lparr>include_blocks := Some (bs[j := DEL_PARTIAL_SATISFIED]),
                          vlog_trace := vlog_trace r @ [FilterBlockPartially j]\<rparr>)
                 else
                   Inr (r\<lparr>include_blocks := Some (bs[j := DEL_SATISFIED]),
                          remain_block := remain_block r - 1,
                          vlog_trace := vlog_trace r @ [FilterBlock j],
                          rows_del_filtered := rows_del_filtered r + rows_of_block env r j\<rparr>)))"

fun pick_delete_blocks ::
  "('stat, 'bf) Env \<Rightarrow> 'stat DeleteConditions \<Rightarrow> nat list \<Rightarrow> SegmentReader \<Rightarrow> failure + SegmentReader"
where
  "pick_delete_blocks env delete_condition [] r = Inr r"
| "pick_delete_blocks env delete_condition (j # js) r =
     (case pick_delete_block env delete_condition j r of
        Inl e \<Rightarrow> Inl e
      | Inr r' \<Rightarrow> pick_delete_blocks env delete_condition js r')"

text \<open>The blocks \<open>first_block, ..., last_block\<close> that the \<open>for\<close> loops visit, in order.\<close>

definition block_range :: "32 word \<Rightarrow> 32 word \<Rightarrow> nat list" where
  "block_range first_block last_block = [unat first_block ..< Suc (unat last_block)]"

text \<open>The loop over the delete conditions.\<close>

fun pick_delete_conditions ::
  "('stat, 'bf) Env \<Rightarrow> 'stat DeleteConditions list \<Rightarrow> 32 word \<Rightarrow> 32 word \<Rightarrow> SegmentReader
     \<Rightarrow> failure + SegmentReader"
where
  "pick_delete_conditions env [] first_block last_block r = Inr r"
| "pick_delete_conditions env (delete_condition # dcs) first_block last_block r =
     (if filter_version delete_condition \<le> segment_version_first env
      then pick_delete_conditions env dcs first_block last_block r
      else
        (case pick_delete_blocks env delete_condition (block_range first_block last_block) r of
           Inl e \<Rightarrow> Inl e
         | Inr r' \<Rightarrow> pick_delete_conditions env dcs first_block last_block r'))"

definition pick_delete_row_groups ::
  "('stat, 'bf) Env \<Rightarrow> 32 word \<Rightarrow> 32 word \<Rightarrow> SegmentReader \<Rightarrow> failure + SegmentReader"
where
  "pick_delete_row_groups env first_block last_block r0 =
     (let r = r0\<lparr>vlog_trace := vlog_trace r0 @ [PickForDelete (unat first_block) (unat last_block)]\<rparr> in
      if delete_conditions env = [] then Inr r
      else if delete_status env = DEL_NOT_SATISFIED
      then Inr (r\<lparr>vlog_trace := vlog_trace r @ [SegmentNotSatisfyDelete]\<rparr>)
      else pick_delete_conditions env (delete_conditions env) first_block last_block r)"

subsection \<open>\<open>_init_include_blocks\<close>\<close>

text \<open>
  A fresh array holds arbitrary bytes until the first \<open>memset\<close>, which covers all of
  it; the model fills it with a placeholder. An array that is already there is reused.
\<close>

definition init_include_blocks ::
  "('stat, 'bf) Env \<Rightarrow> 32 word \<Rightarrow> 32 word \<Rightarrow> SegmentReader \<Rightarrow> failure + SegmentReader"
where
  "init_include_blocks env first_block last_block r =
     (case (case include_blocks r of
              Some bs \<Rightarrow> Inr bs
            | None \<Rightarrow>
                if nothrow_new env (nat (block_count r))
                then Inr (replicate (nat (block_count r)) DEL_PARTIAL_SATISFIED)
                else Inl (Returned OLAP_ERR_MALLOC_ERROR)) of
        Inl e \<Rightarrow> Inl e
      | Inr bs \<Rightarrow>
          (case memset_at bs 0 DEL_SATISFIED (nat (block_count r)) of
             Inl e \<Rightarrow> Inl e
           | Inr bs0 \<Rightarrow>
               (case memset_at bs0 (unat first_block) DEL_NOT_SATISFIED (unat (remain_block r)) of
                  Inl e \<Rightarrow> Inl e
                | Inr bs1 \<Rightarrow> Inr (r\<lparr>include_blocks := Some bs1\<rparr>))))"

subsection \<open>\<open>_pick_row_groups\<close>\<close>

text \<open>The zone-map loop over the blocks, for one condition column: one block.\<close>

definition pick_zone_block ::
  "('stat, 'bf) Env \<Rightarrow> IndexReader option \<Rightarrow> ('stat, 'bf) CondColumn \<Rightarrow> nat \<Rightarrow> SegmentReader
     \<Rightarrow> failure + SegmentReader"
where
  "pick_zone_block env index_reader cond j r =
     (case include_blocks r of
        None \<Rightarrow> Inl UndefinedBehaviour
      | Some bs \<Rightarrow>
          if length bs \<le> j then Inl UndefinedBehaviour
          else if bs ! j = DEL_SATISFIED then Inr r
          else
            (case index_reader of
               None \<Rightarrow> Inl UndefinedBehaviour
             | Some rd \<Rightarrow>
                 if \<not> eval_stat cond (entry_statistic env (reader_buffer rd) j) then
                   Inr (r\<lparr>include_blocks := Some (bs[j := DEL_SATISFIED]),
                          remain_block := remain_block r - 1,
                          rows_stats_filtered := rows_stats_filtered r + rows_of_block env r j\<rparr>)
                 else Inr r))"

fun pick_zone_blocks ::
  "('stat, 'bf) Env \<Rightarrow> IndexReader option \<Rightarrow> ('stat, 'bf) CondColumn \<Rightarrow> nat list \<Rightarrow> SegmentReader
     \<Rightarrow> failure + SegmentReader"
where
  "pick_zone_blocks env index_reader cond [] r = Inr r"
| "pick_zone_blocks env index_reader cond (j # js) r =
     (case pick_zone_block env index_reader cond j r of
        Inl e \<Rightarrow> Inl e
      | Inr r' \<Rightarrow> pick_zone_blocks env index_reader cond js r')"

text \<open>The loop over the columns of the user conditions.\<close>

fun pick_zone_columns ::
  "('stat, 'bf) Env \<Rightarrow> (nat \<times> ('stat, 'bf) CondColumn) list \<Rightarrow> 32 word \<Rightarrow> 32 word
     \<Rightarrow> SegmentReader \<Rightarrow> failure + SegmentReader"
where
  "pick_zone_columns env [] first_block last_block r = Inr r"
| "pick_zone_columns env ((table_column_id, cond) # cols) first_block last_block r =
     (if aggregation_by_index env table_column_id \<noteq> OLAP_FIELD_AGGREGATION_NONE
      then pick_zone_columns env cols first_block last_block r
      else
        (let unique_column_id = map_index (tablet_id_to_unique_id_map env) table_column_id in
         if unique_id_to_segment_id_map env unique_column_id = None
         then pick_zone_columns env cols first_block last_block r
         else
           (case pick_zone_blocks env (indices r unique_column_id) cond
                   (block_range first_block last_block) r of
              Inl e \<Rightarrow> Inl e
            | Inr r' \<Rightarrow> pick_zone_columns env cols first_block last_block r')))"

text \<open>
  The bloom-filter loop over the blocks, for one column \<open>i\<close> of \<open>_load_bf_columns\<close>: one
  block. \<open>_conditions->columns().at(i)\<close> throws when the column has no condition.
\<close>

definition pick_bloom_block ::
  "('stat, 'bf) Env \<Rightarrow> (nat \<times> ('stat, 'bf) CondColumn) list \<Rightarrow> nat \<Rightarrow> IndexReader option \<Rightarrow> nat
     \<Rightarrow> SegmentReader \<Rightarrow> failure + SegmentReader"
where
  "pick_bloom_block env conds i bf_reader j r =
     (case include_blocks r of
        None \<Rightarrow> Inl UndefinedBehaviour
      | Some bs \<Rightarrow>
          if length bs \<le> j then Inl UndefinedBehaviour
          else if bs ! j = DEL_SATISFIED then Inr r
          else
            (case map_of conds i of
               None \<Rightarrow> Inl OutOfRangeThrown
             | Some cond \<Rightarrow>
                 (case bf_reader of
                    None \<Rightarrow> Inl UndefinedBehaviour
                  | Some rd \<Rightarrow>
                      if \<not> eval_bf cond (bloom_entry env (reader_buffer rd) j) then
                        Inr (r\<lparr>include_blocks := Some (bs[j := DEL_SATISFIED]),
                               remain_block := remain_block r - 1,
                               rows_stats_filtered :=
                                 rows_stats_filtered r + rows_of_block env r j\<rparr>)
                      else Inr r)))"

fun pick_bloom_blocks ::
  "('stat, 'bf) Env \<Rightarrow> (nat \<times> ('stat, 'bf) CondColumn) list \<Rightarrow> nat \<Rightarrow> IndexReader option
     \<Rightarrow> nat list \<Rightarrow> SegmentReader \<Rightarrow> failure + SegmentReader"
where
  "pick_bloom_blocks env conds i bf_reader [] r = Inr r"
| "pick_bloom_blocks env conds i bf_reader (j # js) r =
     (case pick_bloom_block env conds i bf_reader j r of
        Inl e \<Rightarrow> Inl e
      | Inr r' \<Rightarrow> pick_bloom_blocks env conds i bf_reader js r')"

fun pick_bloom_columns ::
  "('stat, 'bf) Env \<Rightarrow> (nat \<times> ('stat, 'bf) CondColumn) list \<Rightarrow> nat list \<Rightarrow> 32 word \<Rightarrow> 32 word
     \<Rightarrow> SegmentReader \<Rightarrow> failure + SegmentReader"
where
  "pick_bloom_columns env conds [] first_block last_block r = Inr r"
| "pick_bloom_columns env conds (i # cols) first_block last_block r =
     (if aggregation_by_index env i \<noteq> OLAP_FIELD_AGGREGATION_NONE
      then pick_bloom_columns env conds cols first_block last_block r
      else
        (let unique_column_id = map_index (tablet_id_to_unique_id_map env) i in
         if unique_id_to_segment_id_map env unique_column_id = None
         then pick_bloom_columns env conds cols first_block last_block r
         else
           (case pick_bloom_blocks env conds i (bloom_filters r unique_column_id)
                   (block_range first_block last_block) r of
              Inl e \<Rightarrow> Inl e
            | Inr r' \<Rightarrow> pick_bloom_columns env conds cols first_block last_block r')))"

definition MIN_FILTER_BLOCK_NUM :: "32 word" where
  "MIN_FILTER_BLOCK_NUM = 10"

text \<open>
  The part of \<open>_pick_row_groups\<close> after the delete conditions: the early return without
  user conditions, the zone-map phase, the threshold and the bloom-filter phase.
\<close>

definition pick_condition_row_groups ::
  "('stat, 'bf) Env \<Rightarrow> 32 word \<Rightarrow> 32 word \<Rightarrow> SegmentReader \<Rightarrow> failure + SegmentReader"
where
  "pick_condition_row_groups env first_block last_block r =
     (case conditions env of
        None \<Rightarrow> Inr r
      | Some conds \<Rightarrow>
          if length conds = 0 then Inr r
          else
            (case pick_zone_columns env conds first_block last_block r of
               Inl e \<Rightarrow> Inl e
             | Inr r3 \<Rightarrow>
                 if remain_block r3 < MIN_FILTER_BLOCK_NUM
                 then Inr (r3\<lparr>vlog_trace :=
                                vlog_trace r3 @ [BloomFilterIgnored (unat (remain_block r3))]\<rparr>)
                 else
                   (case pick_bloom_columns env conds (load_bf_columns env)
                           first_block last_block r3 of
                      Inl e \<Rightarrow> Inl e
                    | Inr r4 \<Rightarrow>
                        Inr (r4\<lparr>vlog_trace :=
                                  vlog_trace r4 @ [PickRowGroupsFinished (unat (remain_block r4))]\<rparr>))))"

definition pick_row_groups ::
  "('stat, 'bf) Env \<Rightarrow> 32 word \<Rightarrow> 32 word \<Rightarrow> SegmentReader \<Rightarrow> failure + SegmentReader"
where
  "pick_row_groups env first_block last_block r0 =
     (let r = r0\<lparr>vlog_trace := vlog_trace r0 @ [PickFrom (unat first_block) (unat last_block)]\<rparr> in
      if first_block > last_block then Inl (Returned OLAP_ERR_INPUT_PARAMETER_ERROR)
      else
        (case init_include_blocks env first_block last_block r of
           Inl e \<Rightarrow> Inl e
         | Inr r1 \<Rightarrow>
             (case pick_delete_row_groups env first_block last_block r1 of
                Inl e \<Rightarrow> Inl e
              | Inr r2 \<Rightarrow> pick_condition_row_groups env first_block last_block r2)))"

section \<open>Block scan\<close>

subsection \<open>\<open>_seek_to_block\<close>\<close>

text \<open>
  The \<open>while\<close> loop that steps over excluded blocks. It reads \<open>_include_blocks[block_id]\<close>
  for every \<open>block_id\<close> up to \<open>_end_block\<close> that it passes.
\<close>

function skip_excluded :: "DelCondSatisfied list \<Rightarrow> int \<Rightarrow> int \<Rightarrow> failure + int" where
  "skip_excluded bs end_blk block_id =
     (if block_id \<le> end_blk then
        (if block_id < 0 \<or> int (length bs) \<le> block_id then Inl UndefinedBehaviour
         else if bs ! nat block_id = DEL_SATISFIED then skip_excluded bs end_blk (block_id + 1)
         else Inr block_id)
      else Inr block_id)"
  by pat_completeness auto
termination
  by (relation "measure (\<lambda>(bs, end_blk, block_id). nat (end_blk + 1 - block_id))") auto

definition seek_to_block_internal :: "int \<Rightarrow> bool \<Rightarrow> SegmentReader \<Rightarrow> failure + SegmentReader" where
  "seek_to_block_internal block_id0 without_filter_arg r =
     (case (case include_blocks r of
              Some bs \<Rightarrow>
                if \<not> without_filter_arg then skip_excluded bs (end_block r) block_id0
                else Inr block_id0
            | None \<Rightarrow> Inr block_id0) of
        Inl e \<Rightarrow> Inl e
      | Inr block_id \<Rightarrow>
          Inr (r\<lparr>eof := (if block_id > end_block r then True else eof r),
                 next_block_id := block_id\<rparr>))"

subsection \<open>\<open>_reset_readers\<close>, \<open>_read_all_data_streams\<close> and \<open>_create_reader\<close>\<close>

definition reset_readers :: "SegmentReader \<Rightarrow> SegmentReader" where
  "reset_readers r = r\<lparr>streams := Map.empty, column_readers := [], eof := False\<rparr>"

text \<open>
  The loop of \<open>_read_all_data_streams\<close> over the stream descriptors. \<open>stream_offset\<close> is
  the loop variable that the loop header advances by \<open>stream_length\<close> after every
  descriptor, also after a \<open>continue\<close>; the result holds its final value. It is a signed
  64-bit integer to which an unsigned 64-bit length is added: the bits are those of the
  64-bit sum. A data stream that is created is recorded under its name with its offset
  and length.
\<close>

fun read_data_streams ::
  "('stat, 'bf) Env \<Rightarrow> StreamInfoMessage list \<Rightarrow> 64 word \<Rightarrow> SegmentReader
     \<Rightarrow> failure + 64 word \<times> SegmentReader"
where
  "read_data_streams env [] stream_offset r = Inr (stream_offset, r)"
| "read_data_streams env (message # messages) stream_offset r =
     (let stream_length = message_length message;
          unique_column_id = message_column_unique_id message in
      if unique_id_to_segment_id_map env unique_column_id = None
      then read_data_streams env messages (stream_offset + stream_length) r
      else if unique_column_id \<notin> include_columns env \<and> unique_column_id \<notin> include_bf_columns env
      then read_data_streams env messages (stream_offset + stream_length) r
      else if message_kind message = ROW_INDEX \<or> message_kind message = BLOOM_FILTER
      then read_data_streams env messages (stream_offset + stream_length) r
      else if \<not> data_stream_new_ok env stream_offset stream_length
      then Inl (Returned OLAP_ERR_MALLOC_ERROR)
      else if data_stream_init env stream_offset stream_length \<noteq> OLAP_SUCCESS
      then Inl (Returned (data_stream_init env stream_offset stream_length))
      else read_data_streams env messages (stream_offset + stream_length)
             (r\<lparr>buffer_size :=
                   buffer_size r + data_stream_buffer_size env stream_offset stream_length,
                 streams := (streams r)((unique_column_id, message_kind message) \<mapsto>
                              (stream_offset, stream_length))\<rparr>))"

definition read_all_data_streams ::
  "('stat, 'bf) Env \<Rightarrow> SegmentReader \<Rightarrow> failure + SegmentReader"
where
  "read_all_data_streams env r =
     (case read_data_streams env (stream_info env) (header_length env) r of
        Inl e \<Rightarrow> Inl e
      | Inr (stream_offset, r') \<Rightarrow> Inr r')"

text \<open>\<open>std::vector::resize(n, v)\<close>: cut to \<open>n\<close> elements, or fill up with \<open>v\<close>.\<close>

definition vector_resize :: "'a list \<Rightarrow> nat \<Rightarrow> 'a \<Rightarrow> 'a list" where
  "vector_resize xs n v = take n xs @ replicate (n - length xs) v"

fun create_readers ::
  "('stat, 'bf) Env \<Rightarrow> nat list \<Rightarrow> SegmentReader \<Rightarrow> failure + SegmentReader"
where
  "create_readers env [] r = Inr r"
| "create_readers env (table_column_id # cols) r =
     (let unique_column_id = map_index (tablet_id_to_unique_id_map env) table_column_id in
      if \<not> column_reader_create_ok env table_column_id
      then Inl (Returned OLAP_ERR_MALLOC_ERROR)
      else if column_reader_init env table_column_id \<noteq> OLAP_SUCCESS
      then Inl (Returned (column_reader_init env table_column_id))
      else if length (column_readers r) \<le> table_column_id then Inl UndefinedBehaviour
      else
        (let r1 = r\<lparr>buffer_size := buffer_size r + column_reader_buffer_size env table_column_id,
                     column_readers := (column_readers r)[table_column_id := Some table_column_id]\<rparr>
         in if indices r1 unique_column_id \<noteq> None
            then
              (if length (column_indices r1) \<le> table_column_id then Inl UndefinedBehaviour
               else create_readers env cols
                      (r1\<lparr>column_indices :=
                            (column_indices r1)[table_column_id := indices r1 unique_column_id]\<rparr>))
            else create_readers env cols r1))"

definition create_reader :: "('stat, 'bf) Env \<Rightarrow> SegmentReader \<Rightarrow> failure + SegmentReader" where
  "create_reader env r =
     create_readers env (used_columns env)
       (r\<lparr>column_readers := vector_resize (column_readers r) (num_columns env) None,
          column_indices := vector_resize (column_indices r) (num_columns env) None\<rparr>)"

subsection \<open>\<open>seek_to_block\<close>\<close>

definition seek_to_block ::
  "('stat, 'bf) Env \<Rightarrow> 32 word \<Rightarrow> 32 word \<Rightarrow> bool \<Rightarrow> SegmentReader \<Rightarrow> failure + SegmentReader"
where
  "seek_to_block env first_block last_block without_filter_arg r =
     (case (if \<not> is_data_loaded r then
              (case read_all_data_streams env (reset_readers r) of
                 Inl e \<Rightarrow> Inl e
               | Inr r1 \<Rightarrow>
                   (case create_reader env r1 of
                      Inl e \<Rightarrow> Inl e
                    | Inr r2 \<Rightarrow> Inr (r2\<lparr>is_data_loaded := True\<rparr>)))
            else Inr r) of
        Inl e \<Rightarrow> Inl e
      | Inr r3 \<Rightarrow>
          (let r4 = r3\<lparr>eof := False,
                       end_block := (if uint last_block \<ge> block_count r3
                                     then block_count r3 - 1 else uint last_block),
                       without_filter := without_filter_arg,
                       include_blocks := None\<rparr>
           in case (if \<not> without_filter_arg
                    then pick_row_groups env first_block last_block
                           (r4\<lparr>remain_block := last_block - first_block + 1\<rparr>)
                    else Inr r4) of
                Inl e \<Rightarrow> Inl e
              | Inr r5 \<Rightarrow>
                  (case seek_to_block_internal (uint first_block) without_filter_arg r5 of
                     Inl e \<Rightarrow> Inl e
                   | Inr r6 \<Rightarrow> Inr (r6\<lparr>need_to_seek_block := True\<rparr>))))"

subsection \<open>\<open>_seek_to_block_directly\<close>\<close>

text \<open>
  The loop over the columns of the batch. Its result is the status that
  \<open>_seek_to_block_directly\<close> returns when the loop ends or leaves early.
\<close>

fun seek_columns ::
  "('stat, 'bf) Env \<Rightarrow> SegmentReader \<Rightarrow> int \<Rightarrow> nat list \<Rightarrow> failure + OLAPStatus"
where
  "seek_columns env r block_id [] = Inr OLAP_SUCCESS"
| "seek_columns env r block_id (cid # cids) =
     (if length (column_indices r) \<le> cid then Inl UndefinedBehaviour
      else if column_indices r ! cid = None then seek_columns env r block_id cids
      else if length (column_readers r) \<le> cid then Inl UndefinedBehaviour
      else if column_readers r ! cid = None then Inl UndefinedBehaviour
      else
        (let res = column_reader_seek env cid block_id in
         if res \<noteq> OLAP_SUCCESS then
           (if res = OLAP_ERR_COLUMN_STREAM_EOF then Inr OLAP_ERR_DATA_EOF
            else Inr OLAP_ERR_COLUMN_SEEK_ERROR)
         else seek_columns env r block_id cids))"

definition seek_to_block_directly ::
  "('stat, 'bf) Env \<Rightarrow> int \<Rightarrow> nat list \<Rightarrow> SegmentReader \<Rightarrow> failure + OLAPStatus \<times> SegmentReader"
where
  "seek_to_block_directly env block_id cids r =
     (if \<not> need_to_seek_block r \<and> block_id = current_block_id r then Inr (OLAP_SUCCESS, r)
      else
        (case seek_columns env r block_id cids of
           Inl e \<Rightarrow> Inl e
         | Inr res \<Rightarrow>
             if res \<noteq> OLAP_SUCCESS then Inr (res, r)
             else Inr (OLAP_SUCCESS,
                       r\<lparr>current_block_id := block_id, need_to_seek_block := False\<rparr>)))"

subsection \<open>\<open>_load_to_vectorized_row_batch\<close>\<close>

fun next_vectors ::
  "('stat, 'bf) Env \<Rightarrow> SegmentReader \<Rightarrow> int \<Rightarrow> nat list \<Rightarrow> failure + unit"
where
  "next_vectors env r sz [] = Inr ()"
| "next_vectors env r sz (cid # cids) =
     (if length (column_readers r) \<le> cid then Inl UndefinedBehaviour
      else if column_readers r ! cid = None then Inl UndefinedBehaviour
      else if column_reader_next_vector env cid sz \<noteq> OLAP_SUCCESS
      then Inl (Returned (column_reader_next_vector env cid sz))
      else next_vectors env r sz cids)"

definition load_to_vectorized_row_batch ::
  "('stat, 'bf) Env \<Rightarrow> VectorizedRowBatch \<Rightarrow> int \<Rightarrow> SegmentReader
     \<Rightarrow> failure + SegmentReader \<times> VectorizedRowBatch"
where
  "load_to_vectorized_row_batch env batch sz r =
     (case next_vectors env r sz (batch_columns batch) of
        Inl e \<Rightarrow> Inl e
      | Inr u \<Rightarrow>
          (case (case include_blocks r of
                   Some bs \<Rightarrow>
                     if current_block_id r < 0 \<or> int (length bs) \<le> current_block_id r
                     then Inl UndefinedBehaviour
                     else Inr (bs ! nat (current_block_id r))
                 | None \<Rightarrow> Inr DEL_PARTIAL_SATISFIED) of
             Inl e \<Rightarrow> Inl e
           | Inr status \<Rightarrow>
               (let batch' = batch\<lparr>batch_size := sz, batch_block_status := status\<rparr>;
                    r1 = (if sz = num_rows_in_block r
                          then r\<lparr>current_block_id := current_block_id r + 1\<rparr>
                          else r\<lparr>need_to_seek_block := True\<rparr>)
                in Inr (r1\<lparr>blocks_load := blocks_load r1 + 1,
                            raw_rows_read := raw_rows_read r1 + sz\<rparr>, batch'))))"

subsection \<open>\<open>get_block\<close>\<close>

text \<open>
  \<open>Inr\<close> stands for the return of \<open>OLAP_SUCCESS\<close>; the outputs \<open>next_block_id\<close> and \<open>eof\<close>
  are the fields of the state that is returned. The status of the lazy seek is not looked
  at. \<open>num_rows_load\<close> is passed on as a \<open>size_t\<close>.
\<close>

definition get_block ::
  "('stat, 'bf) Env \<Rightarrow> VectorizedRowBatch \<Rightarrow> SegmentReader
     \<Rightarrow> failure + SegmentReader \<times> VectorizedRowBatch"
where
  "get_block env batch r =
     (if eof r then Inr (r, batch)
      else
        (case seek_to_block_directly env (next_block_id r) (batch_columns batch) r of
           Inl e \<Rightarrow> Inl e
         | Inr (seek_res, r1) \<Rightarrow>
             (let num_rows_load =
                    (if current_block_id r1 = block_count r1 - 1
                     then min (batch_limit batch)
                            (number_of_rows env - num_rows_in_block r1 * current_block_id r1)
                     else batch_limit batch)
              in case load_to_vectorized_row_batch env batch (num_rows_load mod 2 ^ 64) r1 of
                   Inl e \<Rightarrow> Inl e
                 | Inr (r2, batch') \<Rightarrow>
                     (case seek_to_block_internal (next_block_id r2 + 1) (without_filter r2) r2 of
                        Inl e \<Rightarrow> Inl e
                      | Inr r3 \<Rightarrow> Inr (r3, batch')))))"

section \<open>Index loading\<close>

text \<open>
  The body of the loop of \<open>_load_index\<close> for a descriptor that is needed, in two parts.
  The first part gets the buffer of the index stream: from the cache when the key is
  there, which sets \<open>is_using_cache\<close>; otherwise from the file at \<open>stream_offset\<close>, and
  into the cache when \<open>is_using_cache\<close> is set. Its result holds the value of
  \<open>is_using_cache\<close> afterwards, the buffer and the new state.
\<close>

definition fetch_index_stream ::
  "('stat, 'bf) Env \<Rightarrow> StreamInfoMessage \<Rightarrow> 64 word \<Rightarrow> bool \<Rightarrow> nat \<Rightarrow> SegmentReader
     \<Rightarrow> failure + bool \<times> string \<times> SegmentReader"
where
  "fetch_index_stream env message stream_offset is_using_cache cache_handle_index r =
     (let stream_length = message_length message;
          unique_column_id = message_column_unique_id message;
          key = (file_name env, unique_column_id, message_kind message)
      in
      if length (cache_handle r) \<le> cache_handle_index then Inl UndefinedBehaviour
      else
        (case lru_cache r key of
           Some cached \<Rightarrow>
             Inr (True, cached,
                  r\<lparr>cache_handle := (cache_handle r)[cache_handle_index := Some key]\<rparr>)
         | None \<Rightarrow>
             if \<not> nothrow_new env (unat stream_length)
             then Inl (Returned OLAP_ERR_MALLOC_ERROR)
             else
               (case read_all env stream_offset stream_length of
                  (res, stream_buffer) \<Rightarrow>
                    if res \<noteq> OLAP_SUCCESS then Inl (Returned OLAP_ERR_FILE_FORMAT_ERROR)
                    else if is_using_cache then
                      (if cache_insert_ok env key
                       then Inr (is_using_cache, stream_buffer,
                                 r\<lparr>cache_handle :=
                                      (cache_handle r)[cache_handle_index := Some key],
                                    lru_cache := (lru_cache r)(key \<mapsto> stream_buffer)\<rparr>)
                       else Inl ProcessAbort)
                    else Inr (is_using_cache, stream_buffer,
                              r\<lparr>cache_handle :=
                                   (cache_handle r)[cache_handle_index := None]\<rparr>))))"

text \<open>
  The second part parses the buffer into a zone-map reader or a bloom-filter reader,
  records the reader and its entry count, and compares the entry count with the
  expected block count.
\<close>

definition parse_index_stream ::
  "('stat, 'bf) Env \<Rightarrow> StreamInfoMessage \<Rightarrow> bool \<Rightarrow> string \<Rightarrow> SegmentReader
     \<Rightarrow> failure + SegmentReader"
where
  "parse_index_stream env message using_cache stream_buffer r1 =
     (let unique_column_id = message_column_unique_id message in
      if \<not> nothrow_new_reader env unique_column_id (message_kind message)
      then Inl (Returned OLAP_ERR_MALLOC_ERROR)
      else
        (case index_reader_init env (message_kind message) stream_buffer of
           (res, entry_count) \<Rightarrow>
             if res \<noteq> OLAP_SUCCESS then Inl (Returned res)
             else
               (let reader = \<lparr>reader_buffer = stream_buffer,
                               reader_entry_count = entry_count,
                               reader_is_using_cache = using_cache\<rparr>;
                    r2 = (if message_kind message = ROW_INDEX
                          then r1\<lparr>indices := (indices r1)(unique_column_id \<mapsto> reader),
                                  block_count := entry_count\<rparr>
                          else r1\<lparr>bloom_filters :=
                                     (bloom_filters r1)(unique_column_id \<mapsto> reader),
                                  block_count := entry_count\<rparr>)
                in if block_count r2 \<noteq> expected_blocks env
                   then Inl (Returned OLAP_ERR_FILE_FORMAT_ERROR)
                   else Inr r2)))"

definition load_index_stream ::
  "('stat, 'bf) Env \<Rightarrow> StreamInfoMessage \<Rightarrow> 64 word \<Rightarrow> bool \<Rightarrow> nat \<Rightarrow> SegmentReader
     \<Rightarrow> failure + bool \<times> SegmentReader"
where
  "load_index_stream env message stream_offset is_using_cache cache_handle_index r =
     (case fetch_index_stream env message stream_offset is_using_cache cache_handle_index r of
        Inl e \<Rightarrow> Inl e
      | Inr (using_cache, stream_buffer, r1) \<Rightarrow>
          (case parse_index_stream env message using_cache stream_buffer r1 of
             Inl e \<Rightarrow> Inl e
           | Inr r2 \<Rightarrow> Inr (using_cache, r2)))"

text \<open>
  A descriptor is needed when its column has a segment-local id and it is the row index
  of an included column or the bloom filter of an included bloom-filter column.
\<close>

definition index_stream_needed :: "('stat, 'bf) Env \<Rightarrow> StreamInfoMessage \<Rightarrow> bool" where
  "index_stream_needed env message \<longleftrightarrow>
     unique_id_to_segment_id_map env (message_column_unique_id message) \<noteq> None \<and>
     ((message_column_unique_id message \<in> include_columns env \<and>
       message_kind message = ROW_INDEX) \<or>
      (message_column_unique_id message \<in> include_bf_columns env \<and>
       message_kind message = BLOOM_FILTER))"

text \<open>
  The loop of \<open>_load_index\<close> over the stream descriptors, with its local variables
  \<open>stream_offset\<close>, \<open>is_using_cache\<close> and \<open>cache_handle_index\<close>; the result holds their
  final values.
\<close>

fun load_index_streams ::
  "('stat, 'bf) Env \<Rightarrow> StreamInfoMessage list \<Rightarrow> 64 word \<Rightarrow> bool \<Rightarrow> nat \<Rightarrow> SegmentReader
     \<Rightarrow> failure + 64 word \<times> bool \<times> nat \<times> SegmentReader"
where
  "load_index_streams env [] stream_offset is_using_cache cache_handle_index r =
     Inr (stream_offset, is_using_cache, cache_handle_index, r)"
| "load_index_streams env (message # messages) stream_offset is_using_cache cache_handle_index r =
     (if \<not> index_stream_needed env message
      then load_index_streams env messages (stream_offset + message_length message)
             is_using_cache cache_handle_index r
      else
        (case load_index_stream env message stream_offset is_using_cache cache_handle_index r of
           Inl e \<Rightarrow> Inl e
         | Inr (using_cache, r') \<Rightarrow>
             load_index_streams env messages (stream_offset + message_length message)
               using_cache (cache_handle_index + 1) r'))"

definition load_index ::
  "('stat, 'bf) Env \<Rightarrow> bool \<Rightarrow> SegmentReader \<Rightarrow> failure + SegmentReader"
where
  "load_index env is_using_cache r =
     (let r0 = r\<lparr>cache_handle :=
                   vector_resize (cache_handle r) (included_row_index_stream_num env) None\<rparr>
      in if index_stream_init env \<noteq> OLAP_SUCCESS then Inl (Returned (index_stream_init env))
         else
           (case load_index_streams env (stream_info env) (header_length env) is_using_cache 0
                   (r0\<lparr>indices := Map.empty, bloom_filters := Map.empty\<rparr>) of
              Inl e \<Rightarrow> Inl e
            | Inr (stream_offset, using_cache, cache_handle_index, r') \<Rightarrow> Inr r'))"

section \<open>Notions for stating the properties\<close>

text \<open>
  \<open>tightened bs bs'\<close>: the arrays have the same length and every block that is excluded
  in \<open>bs\<close> is excluded in \<open>bs'\<close>. \<open>transitions_into_excluded bs bs'\<close> counts the blocks
  that are not excluded in \<open>bs\<close> and excluded in \<open>bs'\<close>. \<open>prune_step r r'\<close> relates
  two states of a pruning run: the array is tightened, and the counter together with the
  number of excluded blocks stays the same in 32-bit arithmetic. \<open>counter_exact r\<close>: the
  counter is the number of blocks of the array that are not excluded.
\<close>

definition tightened :: "DelCondSatisfied list \<Rightarrow> DelCondSatisfied list \<Rightarrow> bool" where
  "tightened bs bs' \<longleftrightarrow> list_all2 (\<lambda>a b. a = DEL_SATISFIED \<longrightarrow> b = DEL_SATISFIED) bs bs'"

definition transitions_into_excluded :: "DelCondSatisfied list \<Rightarrow> DelCondSatisfied list \<Rightarrow> nat" where
  "transitions_into_excluded bs bs' =
     length (filter (\<lambda>(a, b). a \<noteq> DEL_SATISFIED \<and> b = DEL_SATISFIED) (zip bs bs'))"

definition prune_step :: "SegmentReader \<Rightarrow> SegmentReader \<Rightarrow> bool" where
  "prune_step r r' \<longleftrightarrow>
     indices r' = indices r \<and> bloom_filters r' = bloom_filters r \<and>
     block_count r' = block_count r \<and>
     (case include_blocks r of
        None \<Rightarrow> include_blocks r' = None \<and> remain_block r' = remain_block r
      | Some bs \<Rightarrow>
          (case include_blocks r' of
             None \<Rightarrow> False
           | Some bs' \<Rightarrow>
               tightened bs bs' \<and>
               remain_block r' + of_nat (count_list bs' DEL_SATISFIED)
                 = remain_block r + of_nat (count_list bs DEL_SATISFIED)))"

definition counter_exact :: "SegmentReader \<Rightarrow> bool" where
  "counter_exact r \<longleftrightarrow>
     (case include_blocks r of
        None \<Rightarrow> False
      | Some bs \<Rightarrow> unat (remain_block r) + count_list bs DEL_SATISFIED = length bs)"

text \<open>
  \<open>block_disposition r k\<close>: the disposition of block \<open>k\<close> in the array, if there is an
  array and \<open>k\<close> is inside it.
\<close>

definition block_disposition :: "SegmentReader \<Rightarrow> nat \<Rightarrow> DelCondSatisfied option" where
  "block_disposition r k =
     (case include_blocks r of
        None \<Rightarrow> None
      | Some bs \<Rightarrow> if k < length bs then Some (bs ! k) else None)"


text \<open>
  \<open>columns_readable r cids\<close>: every column of the batch has a column reader, and its
  slot in the vector of column indices exists. \<open>readers_succeed env\<close>: every seek and
  every \<open>next_vector\<close> of the column readers returns \<open>OLAP_SUCCESS\<close>.
\<close>

definition columns_readable :: "SegmentReader \<Rightarrow> nat list \<Rightarrow> bool" where
  "columns_readable r cids \<longleftrightarrow>
     list_all (\<lambda>cid. cid < length (column_readers r) \<and> column_readers r ! cid \<noteq> None \<and>
                     cid < length (column_indices r)) cids"


text \<open>
  \<open>scanning batch n bs k r\<close>: the state of an unfiltered scan of \<open>n\<close> blocks of \<open>bs\<close> rows
  that is about to read block \<open>k\<close>: as \<open>seek_to_block\<close> leaves it for \<open>k = 0\<close>, and as
  \<open>get_block\<close> leaves it after a full block.
\<close>

definition scanning :: "VectorizedRowBatch \<Rightarrow> nat \<Rightarrow> int \<Rightarrow> nat \<Rightarrow> SegmentReader \<Rightarrow> bool" where
  "scanning batch n bs k r \<longleftrightarrow>
     \<not> eof r \<and> next_block_id r = int k \<and> end_block r = int n - 1 \<and> without_filter r \<and>
     include_blocks r = None \<and> block_count r = int n \<and> num_rows_in_block r = bs \<and>
     batch_limit batch = bs \<and> columns_readable r (batch_columns batch) \<and>
     (need_to_seek_block r \<or> current_block_id r = int k)"

text \<open>
  \<open>readers_agree env r\<close>: every zone-map reader and every bloom-filter reader of the
  state has the expected number of entries, and so has the recorded block count when
  there is a reader.
\<close>

definition readers_agree :: "('stat, 'bf) Env \<Rightarrow> SegmentReader \<Rightarrow> bool" where
  "readers_agree env r \<longleftrightarrow>
     (\<forall>u rd. indices r u = Some rd \<or> bloom_filters r u = Some rd
        \<longrightarrow> reader_entry_count rd = expected_blocks env \<and> block_count r = expected_blocks env)"

section \<open>Example segments\<close>

text \<open>
  A segment of 4096 rows in 4 blocks of 1024 rows, read through one column (table id 0,
  unique id 10) whose zone-map statistic of block \<open>j\<close> is \<open>j\<close>, with one delete condition
  that block 2 satisfies fully and block 3 partially.
\<close>

definition example_index_reader :: IndexReader where
  "example_index_reader =
     \<lparr>reader_buffer = ''zone map'', reader_entry_count = 4, reader_is_using_cache = False\<rparr>"

definition example_delete_condition :: "nat DeleteConditions" where
  "example_delete_condition =
     \<lparr>filter_version = 5,
      del_cond_columns =
        [(0, \<lambda>stat. if stat = 2 then DEL_SATISFIED
                     else if stat = 3 then DEL_PARTIAL_SATISFIED
                     else DEL_NOT_SATISFIED)]\<rparr>"

definition example_env :: "(nat, nat) Env" where
  "example_env =
     \<lparr>delete_conditions = [example_delete_condition],
      delete_status = DEL_PARTIAL_SATISFIED,
      segment_version_first = 1,
      conditions = None,
      used_columns = [0],
      load_bf_columns = [],
      aggregation_by_index = (\<lambda>i. OLAP_FIELD_AGGREGATION_NONE),
      tablet_id_to_unique_id_map = [0 \<mapsto> 10],
      unique_id_to_segment_id_map = [10 \<mapsto> 0],
      include_columns = {10},
      include_bf_columns = {},
      num_columns = 1,
      file_name = ''segment'',
      header_length = 500,
      stream_info = [],
      number_of_rows = 4096,
      expected_blocks = 4,
      included_row_index_stream_num = 1,
      entry_statistic = (\<lambda>buf j. j),
      bloom_entry = (\<lambda>buf j. j),
      nothrow_new = (\<lambda>n. True),
      nothrow_new_reader = (\<lambda>u k. True),
      index_stream_init = OLAP_SUCCESS,
      read_all = (\<lambda>off len. (OLAP_SUCCESS, ''index bytes'')),
      cache_insert_ok = (\<lambda>key. True),
      index_reader_init = (\<lambda>k buf. (OLAP_SUCCESS, 4)),
      data_stream_new_ok = (\<lambda>off len. True),
      data_stream_init = (\<lambda>off len. OLAP_SUCCESS),
      data_stream_buffer_size = (\<lambda>off len. 0),
      column_reader_create_ok = (\<lambda>c. True),
      column_reader_init = (\<lambda>c. OLAP_SUCCESS),
      column_reader_buffer_size = (\<lambda>c. 0),
      column_reader_seek = (\<lambda>c b. OLAP_SUCCESS),
      column_reader_next_vector = (\<lambda>c n. OLAP_SUCCESS)\<rparr>"

definition example_reader :: SegmentReader where
  "example_reader =
     \<lparr>eof = False, end_block = 3, current_block_id = 0, next_block_id = 0,
      block_count = 4, num_rows_in_block = 1024,
      include_blocks = None, remain_block = 4,
      without_filter = False, need_to_seek_block = True, is_data_loaded = True,
      buffer_size = 0, streams = Map.empty,
      column_readers = [Some 0], column_indices = [Some example_index_reader],
      indices = [10 \<mapsto> example_index_reader], bloom_filters = Map.empty,
      cache_handle = [], lru_cache = Map.empty,
      rows_del_filtered = 0, rows_stats_filtered = 0, blocks_load = 0, raw_rows_read = 0,
      vlog_trace = []\<rparr>"

text \<open>
  The example after pruning, a delete condition that no block satisfies, and a delete
  condition without columns.
\<close>

definition example_pruned :: SegmentReader where
  "example_pruned =
     example_reader\<lparr>include_blocks :=
                      Some [DEL_NOT_SATISFIED, DEL_NOT_SATISFIED, DEL_SATISFIED,
                            DEL_PARTIAL_SATISFIED],
                    remain_block := 3\<rparr>"

definition example_no_match_condition :: "nat DeleteConditions" where
  "example_no_match_condition =
     \<lparr>filter_version = 6, del_cond_columns = [(0, \<lambda>stat. DEL_NOT_SATISFIED)]\<rparr>"

definition example_zero_column_condition :: "nat DeleteConditions" where
  "example_zero_column_condition = \<lparr>filter_version = 6, del_cond_columns = []\<rparr>"

text \<open>
  The example with 10 blocks, no delete condition, and a user condition on column 0 that
  every zone map satisfies and that the bloom filter of block 0 does not.
\<close>

definition example_bloom_env :: "(nat, nat) Env" where
  "example_bloom_env =
     example_env\<lparr>delete_conditions := [],
                 conditions := Some [(0, \<lparr>eval_stat = (\<lambda>stat. True),
                                          eval_bf = (\<lambda>entry. entry \<noteq> 0)\<rparr>)],
                 load_bf_columns := [0],
                 number_of_rows := 10240\<rparr>"

definition example_bloom_reader :: SegmentReader where
  "example_bloom_reader =
     example_reader\<lparr>block_count := 10, end_block := 9, remain_block := 10,
                    bloom_filters := [10 \<mapsto> example_index_reader]\<rparr>"

text \<open>
  A batch of column 0 with room for one block; the example with 4000 rows, whose last
  block has 928 rows; the example reader about to read the last block; a column reader
  whose seek fails.
\<close>

definition example_batch :: VectorizedRowBatch where
  "example_batch =
     \<lparr>batch_columns = [0], batch_limit = 1024, batch_size = 0,
      batch_block_status = DEL_NOT_SATISFIED\<rparr>"



definition example_seek_error_env :: "(nat, nat) Env" where
  "example_seek_error_env = example_env\<lparr>column_reader_seek := (\<lambda>cid block_id. OLAP_ERR_OTHER 1)\<rparr>"

text \<open>
  A header of three data streams of lengths 100, 200 and 150 after a header of 500
  bytes, for the columns with the unique ids 10, 11 and 10; the same header with three
  row-index streams for the columns 10, 11 and 12. The file answers a read at offset 800
  with other bytes than elsewhere.
\<close>

definition example_data_streams :: "StreamInfoMessage list" where
  "example_data_streams =
     [\<lparr>message_length = 100, message_column_unique_id = 10, message_kind = OTHER_KIND 1\<rparr>,
      \<lparr>message_length = 200, message_column_unique_id = 11, message_kind = OTHER_KIND 1\<rparr>,
      \<lparr>message_length = 150, message_column_unique_id = 10, message_kind = OTHER_KIND 2\<rparr>]"

definition example_index_streams :: "StreamInfoMessage list" where
  "example_index_streams =
     [\<lparr>message_length = 100, message_column_unique_id = 10, message_kind = ROW_INDEX\<rparr>,
      \<lparr>message_length = 200, message_column_unique_id = 11, message_kind = ROW_INDEX\<rparr>,
      \<lparr>message_length = 150, message_column_unique_id = 12, message_kind = ROW_INDEX\<rparr>]"

definition example_streams_env :: "(nat, nat) Env" where
  "example_streams_env =
     example_env\<lparr>unique_id_to_segment_id_map := [10 \<mapsto> 0, 11 \<mapsto> 1, 12 \<mapsto> 2],
                 include_columns := {10, 12},
                 included_row_index_stream_num := 3,
                 read_all := (\<lambda>off len. (OLAP_SUCCESS,
                                if off = 800 then ''bytes at 800'' else ''other bytes''))\<rparr>"

text \<open>
  The example with a third row index that has 7 entries where 4 are expected, and the
  example with the row index of column 10 in the shared cache already.
\<close>

definition example_mismatch_env :: "(nat, nat) Env" where
  "example_mismatch_env =
     example_streams_env\<lparr>stream_info := example_index_streams,
                         index_reader_init :=
                           (\<lambda>k buf. (OLAP_SUCCESS, if buf = ''bytes at 800'' then 7 else 4))\<rparr>"

definition example_cached_reader :: SegmentReader where
  "example_cached_reader =
     example_reader\<lparr>lru_cache := [(''segment'', 10, ROW_INDEX) \<mapsto> ''cached bytes'']\<rparr>"

definition example_mismatch_prefix :: "64 word \<times> bool \<times> nat \<times> SegmentReader" where
  "example_mismatch_prefix =
     projr (load_index_streams example_mismatch_env (take 2 example_index_streams)
              (header_length example_mismatch_env) False 0
              (example_reader\<lparr>cache_handle :=
                                 vector_resize (cache_handle example_reader)
                                   (included_row_index_stream_num example_mismatch_env) None,
                               indices := Map.empty, bloom_filters := Map.empty\<rparr>))"

definition example_mismatch_fetch :: "bool \<times> string \<times> SegmentReader" where
  "example_mismatch_fetch =
     projr (fetch_index_stream example_mismatch_env (example_index_streams ! 2)
              (fst example_mismatch_prefix) (fst (snd example_mismatch_prefix))
              (fst (snd (snd example_mismatch_prefix))) (snd (snd (snd example_mismatch_prefix))))"

section \<open>Properties\<close>

subsection \<open>Pruning steps\<close>

lemma tightened_refl: "tightened bs bs"
  by (simp add: tightened_def list_all2_same)

lemma tightened_trans: "tightened a b \<Longrightarrow> tightened b c \<Longrightarrow> tightened a c"
  unfolding tightened_def
  by (erule (1) list_all2_trans[rotated]) simp

lemma tightened_length: "tightened a b \<Longrightarrow> length b = length a"
  by (simp add: tightened_def list_all2_lengthD)

lemma tightened_nth: "tightened a b \<Longrightarrow> k < length a \<Longrightarrow> a ! k = DEL_SATISFIED \<Longrightarrow> b ! k = DEL_SATISFIED"
  by (simp add: tightened_def list_all2_conv_all_nth)

lemma tightened_update:
  "j < length bs \<Longrightarrow> bs ! j \<noteq> DEL_SATISFIED \<Longrightarrow> tightened bs (bs[j := v])"
  by (auto simp: tightened_def list_all2_conv_all_nth nth_list_update)

lemma count_list_update_other:
  "j < length bs \<Longrightarrow> bs ! j \<noteq> x \<Longrightarrow> v \<noteq> x \<Longrightarrow> count_list (bs[j := v]) x = count_list bs x"
  by (induction bs arbitrary: j) (auto split: nat.splits)

lemma count_list_update_same:
  "j < length bs \<Longrightarrow> bs ! j \<noteq> x \<Longrightarrow> count_list (bs[j := x]) x = Suc (count_list bs x)"
  by (induction bs arbitrary: j) (auto split: nat.splits)

lemma prune_step_refl: "prune_step r r"
  by (simp add: prune_step_def tightened_refl split: option.splits)

lemma prune_step_trans: "prune_step a b \<Longrightarrow> prune_step b c \<Longrightarrow> prune_step a c"
  by (auto simp: prune_step_def split: option.splits intro: tightened_trans)

lemma prune_step_trace: "prune_step r (r\<lparr>vlog_trace := t\<rparr>)"
  by (simp add: prune_step_def tightened_refl split: option.splits)

lemma pick_delete_block_step:
  "pick_delete_block env dc j r = Inr r' \<Longrightarrow> prune_step r r'"
  unfolding pick_delete_block_def prune_step_def
  by (auto split: option.splits if_splits sum.splits prod.splits
      simp: tightened_refl tightened_update count_list_update_other count_list_update_same)

lemma pick_zone_block_step:
  "pick_zone_block env rd cond j r = Inr r' \<Longrightarrow> prune_step r r'"
  unfolding pick_zone_block_def prune_step_def
  by (auto split: option.splits if_splits
      simp: tightened_refl tightened_update count_list_update_same)

lemma pick_bloom_block_step:
  "pick_bloom_block env conds i rd j r = Inr r' \<Longrightarrow> prune_step r r'"
  unfolding pick_bloom_block_def prune_step_def
  by (auto split: option.splits if_splits
      simp: tightened_refl tightened_update count_list_update_same)

lemma pick_delete_blocks_step:
  "pick_delete_blocks env dc js r = Inr r' \<Longrightarrow> prune_step r r'"
proof (induction js arbitrary: r)
  case Nil
  then show ?case by (simp add: prune_step_refl)
next
  case (Cons j js)
  then show ?case
    by (auto split: sum.splits dest: pick_delete_block_step intro: prune_step_trans)
qed

lemma pick_zone_blocks_step:
  "pick_zone_blocks env rd cond js r = Inr r' \<Longrightarrow> prune_step r r'"
proof (induction js arbitrary: r)
  case Nil
  then show ?case by (simp add: prune_step_refl)
next
  case (Cons j js)
  then show ?case
    by (auto split: sum.splits dest: pick_zone_block_step intro: prune_step_trans)
qed

lemma pick_bloom_blocks_step:
  "pick_bloom_blocks env conds i rd js r = Inr r' \<Longrightarrow> prune_step r r'"
proof (induction js arbitrary: r)
  case Nil
  then show ?case by (simp add: prune_step_refl)
next
  case (Cons j js)
  then show ?case
    by (auto split: sum.splits dest: pick_bloom_block_step intro: prune_step_trans)
qed

lemma pick_delete_conditions_step:
  "pick_delete_conditions env dcs f l r = Inr r' \<Longrightarrow> prune_step r r'"
proof (induction dcs arbitrary: r)
  case Nil
  then show ?case by (simp add: prune_step_refl)
next
  case (Cons dc dcs)
  then show ?case
    by (auto split: sum.splits if_splits dest: pick_delete_blocks_step intro: prune_step_trans)
qed

lemma pick_delete_row_groups_step:
  "pick_delete_row_groups env f l r = Inr r' \<Longrightarrow> prune_step r r'"
  unfolding pick_delete_row_groups_def Let_def
  by (auto split: if_splits dest!: pick_delete_conditions_step
      intro: prune_step_trans[OF prune_step_trace] prune_step_trace
             prune_step_trans[OF prune_step_trace prune_step_trace])

lemma pick_zone_columns_step:
  "pick_zone_columns env conds f l r = Inr r' \<Longrightarrow> prune_step r r'"
proof (induction conds arbitrary: r)
  case Nil
  then show ?case by (simp add: prune_step_refl)
next
  case (Cons c conds)
  obtain i cond where c: "c = (i, cond)" by (cases c)
  from Cons show ?case unfolding c
    by (auto simp: Let_def split: sum.splits if_splits dest: pick_zone_blocks_step
        intro: prune_step_trans)
qed

lemma pick_bloom_columns_step:
  "pick_bloom_columns env conds cols f l r = Inr r' \<Longrightarrow> prune_step r r'"
proof (induction cols arbitrary: r)
  case Nil
  then show ?case by (simp add: prune_step_refl)
next
  case (Cons c cols)
  then show ?case
    by (auto simp: Let_def split: sum.splits if_splits dest: pick_bloom_blocks_step
        intro: prune_step_trans)
qed

lemma prune_step_trace_right: "prune_step r r' \<Longrightarrow> prune_step r (r'\<lparr>vlog_trace := t\<rparr>)"
  by (erule prune_step_trans) (rule prune_step_trace)

lemma pick_condition_row_groups_step:
  "pick_condition_row_groups env f l r = Inr r' \<Longrightarrow> prune_step r r'"
  unfolding pick_condition_row_groups_def
  by (auto split: option.splits if_splits sum.splits
      dest!: pick_zone_columns_step pick_bloom_columns_step
      intro: prune_step_refl prune_step_trace_right prune_step_trans)

lemma unat_range_size:
  fixes first_block last_block :: "32 word"
  assumes "first_block \<le> last_block" "last_block - first_block + 1 \<noteq> 0"
  shows "unat (last_block - first_block + 1) = unat last_block - unat first_block + 1"
proof -
  have "unat (1 + (last_block - first_block)) = Suc (unat (last_block - first_block))"
    using assms(2) by (intro unatSuc) (simp add: add.commute)
  then show ?thesis using assms(1) by (simp add: unat_sub add.commute)
qed

lemma memset_at_replicate:
  "off + n \<le> m \<Longrightarrow>
   memset_at (replicate m x) off v n = Inr (replicate off x @ replicate n v @ replicate (m - (off + n)) x)"
  by (simp add: memset_at_def min_def)

lemma init_include_blocks_fresh:
  assumes "include_blocks r = None" "nothrow_new env (nat (block_count r))"
    "unat first_block + unat (remain_block r) \<le> nat (block_count r)"
  shows "init_include_blocks env first_block last_block r =
     Inr (r\<lparr>include_blocks := Some
            (replicate (unat first_block) DEL_SATISFIED
             @ replicate (unat (remain_block r)) DEL_NOT_SATISFIED
             @ replicate (nat (block_count r) - (unat first_block + unat (remain_block r)))
                 DEL_SATISFIED)\<rparr>)"
  using assms
  by (simp add: init_include_blocks_def memset_at_replicate)

lemma nth_three_replicates:
  "j < a + b + c \<Longrightarrow>
   (replicate a x @ replicate b y @ replicate c x) ! j = (if a \<le> j \<and> j < a + b then y else x)"
  by (auto simp: nth_append)

subsection \<open>Initialisation of the disposition array\<close>

text \<open>
  \<open>_pick_row_groups\<close> returns the invalid-argument error whenever
  \<open>first_block > last_block\<close>, and the allocation error when the array cannot be
  allocated. For a range that ends inside the block count, with the counter holding the
  size of the range, \<open>_init_include_blocks\<close> makes every block outside the range
  excluded and every block inside it included, and the pruning phases run on that array.
\<close>

lemma pick_row_groups_in_range:
  fixes env :: "('stat, 'bf) Env"
  shows "(first_block > last_block \<longrightarrow>
            pick_row_groups env first_block last_block r
              = Inl (Returned OLAP_ERR_INPUT_PARAMETER_ERROR)) \<and>
         (first_block \<le> last_block \<and> include_blocks r = None \<and>
          \<not> nothrow_new env (nat (block_count r)) \<longrightarrow>
            pick_row_groups env first_block last_block r
              = Inl (Returned OLAP_ERR_MALLOC_ERROR)) \<and>
         (first_block \<le> last_block \<and> include_blocks r = None \<and>
          nothrow_new env (nat (block_count r)) \<and>
          remain_block r = last_block - first_block + 1 \<and> last_block - first_block + 1 \<noteq> 0 \<and>
          uint last_block < block_count r \<longrightarrow>
            (\<exists>r1 bs.
               init_include_blocks env first_block last_block
                 (r\<lparr>vlog_trace := vlog_trace r @ [PickFrom (unat first_block) (unat last_block)]\<rparr>)
                 = Inr r1 \<and>
               include_blocks r1 = Some bs \<and> length bs = nat (block_count r) \<and>
               (\<forall>j < length bs.
                  bs ! j = (if unat first_block \<le> j \<and> j \<le> unat last_block
                            then DEL_NOT_SATISFIED else DEL_SATISFIED)) \<and>
               remain_block r1 = remain_block r \<and>
               pick_row_groups env first_block last_block r =
                 (case pick_delete_row_groups env first_block last_block r1 of
                    Inl e \<Rightarrow> Inl e
                  | Inr r2 \<Rightarrow> pick_condition_row_groups env first_block last_block r2)))"
proof (intro conjI impI)
  assume "first_block > last_block"
  then show "pick_row_groups env first_block last_block r
              = Inl (Returned OLAP_ERR_INPUT_PARAMETER_ERROR)"
    by (simp add: pick_row_groups_def)
next
  assume "first_block \<le> last_block \<and> include_blocks r = None \<and>
          \<not> nothrow_new env (nat (block_count r))"
  then have "\<not> last_block < first_block" "include_blocks r = None"
    "\<not> nothrow_new env (nat (block_count r))"
    by (simp_all add: not_less)
  then show "pick_row_groups env first_block last_block r
              = Inl (Returned OLAP_ERR_MALLOC_ERROR)"
    by (simp add: pick_row_groups_def init_include_blocks_def Let_def)
next
  assume h: "first_block \<le> last_block \<and> include_blocks r = None \<and>
          nothrow_new env (nat (block_count r)) \<and>
          remain_block r = last_block - first_block + 1 \<and> last_block - first_block + 1 \<noteq> 0 \<and>
          uint last_block < block_count r"
  define n where "n = nat (block_count r)"
  define r0 where
    "r0 = r\<lparr>vlog_trace := vlog_trace r @ [PickFrom (unat first_block) (unat last_block)]\<rparr>"
  have h1: "first_block \<le> last_block" and h2: "last_block - first_block + 1 \<noteq> 0"
    and h3: "remain_block r = last_block - first_block + 1"
    and h4: "include_blocks r = None" and h5: "nothrow_new env (nat (block_count r))"
    and h6: "uint last_block < block_count r"
    using h by blast+
  have fl: "unat first_block \<le> unat last_block"
    using h1 by (simp add: word_le_nat_alt)
  have rem: "unat (remain_block r) = unat last_block - unat first_block + 1"
    unfolding h3 using h1 h2 by (rule unat_range_size)
  have ln: "unat last_block < n"
  proof -
    have "0 \<le> uint last_block" by (rule uint_nonnegative)
    with h6 have "nat (uint last_block) < nat (block_count r)" by linarith
    then show ?thesis by (simp only: n_def unat_eq_nat_uint)
  qed
  have bound: "unat first_block + unat (remain_block r0) \<le> nat (block_count r0)"
    using fl rem ln by (simp add: r0_def n_def)
  define bs where
    "bs = replicate (unat first_block) DEL_SATISFIED
             @ replicate (unat (remain_block r)) DEL_NOT_SATISFIED
             @ replicate (n - (unat first_block + unat (remain_block r))) DEL_SATISFIED"
  have init: "init_include_blocks env first_block last_block r0
                = Inr (r0\<lparr>include_blocks := Some bs\<rparr>)"
    using init_include_blocks_fresh[of r0 env first_block last_block] h4 h5 bound
    by (simp add: r0_def bs_def n_def)
  have len: "length bs = n"
    using fl rem ln by (simp add: bs_def)
  have nth: "bs ! j = (if unat first_block \<le> j \<and> j \<le> unat last_block
                            then DEL_NOT_SATISFIED else DEL_SATISFIED)" if "j < length bs" for j
  proof -
    have "j < unat first_block + unat (remain_block r)
              + (n - (unat first_block + unat (remain_block r)))"
      using that len fl rem ln by simp
    then have "bs ! j = (if unat first_block \<le> j \<and> j < unat first_block + unat (remain_block r)
                         then DEL_NOT_SATISFIED else DEL_SATISFIED)"
      unfolding bs_def by (rule nth_three_replicates)
    then show ?thesis using fl rem by auto
  qed
  have run: "pick_row_groups env first_block last_block r =
                 (case pick_delete_row_groups env first_block last_block
                         (r0\<lparr>include_blocks := Some bs\<rparr>) of
                    Inl e \<Rightarrow> Inl e
                  | Inr r2 \<Rightarrow> pick_condition_row_groups env first_block last_block r2)"
  proof -
    have "\<not> last_block < first_block" using h1 by (simp add: not_less)
    then show ?thesis using init by (simp add: pick_row_groups_def r0_def Let_def)
  qed
  show "\<exists>r1 bs.
               init_include_blocks env first_block last_block
                 (r\<lparr>vlog_trace := vlog_trace r @ [PickFrom (unat first_block) (unat last_block)]\<rparr>)
                 = Inr r1 \<and>
               include_blocks r1 = Some bs \<and> length bs = nat (block_count r) \<and>
               (\<forall>j < length bs.
                  bs ! j = (if unat first_block \<le> j \<and> j \<le> unat last_block
                            then DEL_NOT_SATISFIED else DEL_SATISFIED)) \<and>
               remain_block r1 = remain_block r \<and>
               pick_row_groups env first_block last_block r =
                 (case pick_delete_row_groups env first_block last_block r1 of
                    Inl e \<Rightarrow> Inl e
                  | Inr r2 \<Rightarrow> pick_condition_row_groups env first_block last_block r2)"
    apply (rule exI[of _ "r0\<lparr>include_blocks := Some bs\<rparr>"])
    apply (rule exI[of _ bs])
    using init len nth run by (simp add: r0_def n_def)
qed

text \<open>
  The second \<open>memset\<close> of \<open>_init_include_blocks\<close> writes \<open>_remain_block\<close> cells from
  \<open>first_block\<close> on, whatever the length of the array is.
\<close>

lemma init_include_blocks_overrun:
  assumes "include_blocks r = None" "nothrow_new env (nat (block_count r))"
    "nat (block_count r) < unat first_block + unat (remain_block r)"
  shows "init_include_blocks env first_block last_block r = Inl UndefinedBehaviour"
  using assms by (simp add: init_include_blocks_def memset_at_def)

text \<open>
  Claim C9. For \<open>first_block \<le> last_block\<close> the claim has \<open>_pick_row_groups\<close> set
  the blocks of the range to included and all others to excluded. The code does not do
  so for a range that ends at or after the block count: \<open>seek_to_block\<close> clamps
  \<open>_end_block\<close> to \<open>_block_count - 1\<close> for such a \<open>last_block\<close>, but it sets
  \<open>_remain_block\<close> from the \<open>last_block\<close> it was given and passes that one on to
  \<open>_pick_row_groups\<close>. On a reader whose data is loaded, for every range
  \<open>first_block \<le> last_block\<close> whose size does not wrap around, with
  \<open>last_block \<ge> _block_count\<close> and an array that can be allocated, the second
  \<open>memset\<close> of \<open>_init_include_blocks\<close> runs past the end of the array of
  \<open>_block_count\<close> cells: the filtered \<open>seek_to_block\<close> and \<open>_pick_row_groups\<close> in the
  state it is handed are undefined behaviour, where the unfiltered \<open>seek_to_block\<close> of
  the same range succeeds with \<open>_end_block = _block_count - 1\<close>. The example is the
  range 0 to 5 on the segment of 4 blocks; the range 1 to 2 on it gives excluded,
  included, included, excluded.
\<close>

theorem pick_row_groups_overruns_array:
  fixes env :: "('stat, 'bf) Env"
  assumes "is_data_loaded r" "first_block \<le> last_block" "last_block - first_block + 1 \<noteq> 0"
    and "block_count r \<le> uint last_block" "nothrow_new env (nat (block_count r))"
  shows "seek_to_block env first_block last_block False r = Inl UndefinedBehaviour \<and>
     pick_row_groups env first_block last_block
       (r\<lparr>eof := False, end_block := block_count r - 1, without_filter := False,
          include_blocks := None, remain_block := last_block - first_block + 1\<rparr>)
       = Inl UndefinedBehaviour \<and>
     memset_at (replicate (nat (block_count r)) DEL_SATISFIED) (unat first_block)
       DEL_NOT_SATISFIED (unat (last_block - first_block + 1)) = Inl UndefinedBehaviour \<and>
     (\<exists>r'. seek_to_block env first_block last_block True r = Inr r' \<and>
           end_block r' = block_count r - 1 \<and> include_blocks r' = None)"
proof -
  define rin where "rin = r\<lparr>eof := False, end_block := block_count r - 1,
          without_filter := False,
          include_blocks := None, remain_block := last_block - first_block + 1\<rparr>"
  define r0 where
    "r0 = rin\<lparr>vlog_trace := vlog_trace rin @ [PickFrom (unat first_block) (unat last_block)]\<rparr>"
  have fl: "unat first_block \<le> unat last_block"
    using assms(2) by (simp add: word_le_nat_alt)
  have rem: "unat (last_block - first_block + 1) = unat last_block - unat first_block + 1"
    using assms(2,3) by (rule unat_range_size)
  have ln: "nat (block_count r) \<le> unat last_block"
  proof -
    have "nat (block_count r) \<le> nat (uint last_block)" using assms(4) by linarith
    then show ?thesis by (simp only: unat_eq_nat_uint)
  qed
  have over: "nat (block_count r) < unat first_block + unat (last_block - first_block + 1)"
    using fl rem ln by linarith
  have "nat (block_count r0) < unat first_block + unat (remain_block r0)"
    using over by (simp add: r0_def rin_def)
  moreover have "include_blocks r0 = None" "nothrow_new env (nat (block_count r0))"
    using assms(5) by (simp_all add: r0_def rin_def)
  ultimately have init: "init_include_blocks env first_block last_block r0
                           = Inl UndefinedBehaviour"
    by (intro init_include_blocks_overrun)
  have nl: "\<not> last_block < first_block" using assms(2) by (simp add: not_less)
  have p: "pick_row_groups env first_block last_block rin = Inl UndefinedBehaviour"
    using nl init by (simp add: pick_row_groups_def Let_def r0_def)
  have ge: "uint last_block \<ge> block_count r" using assms(4) .
  have s: "seek_to_block env first_block last_block False r = Inl UndefinedBehaviour"
    unfolding seek_to_block_def using assms(1) ge p by (simp add: Let_def rin_def)
  have m: "memset_at (replicate (nat (block_count r)) DEL_SATISFIED) (unat first_block)
       DEL_NOT_SATISFIED (unat (last_block - first_block + 1)) = Inl UndefinedBehaviour"
    using over by (simp add: memset_at_def)
  define r4 where "r4 = r\<lparr>eof := False, end_block := block_count r - 1,
          without_filter := True, include_blocks := None\<rparr>"
  have i: "seek_to_block_internal (uint first_block) True r4
             = Inr (r4\<lparr>eof := (uint first_block > block_count r - 1),
                       next_block_id := uint first_block\<rparr>)"
    by (simp add: seek_to_block_internal_def r4_def)
  have u: "seek_to_block env first_block last_block True r
          = Inr (r4\<lparr>eof := (uint first_block > block_count r - 1),
                    next_block_id := uint first_block,
                    need_to_seek_block := True\<rparr>)"
    unfolding seek_to_block_def using assms(1) ge i by (simp add: Let_def r4_def)
  have "\<exists>r'. seek_to_block env first_block last_block True r = Inr r' \<and>
           end_block r' = block_count r - 1 \<and> include_blocks r' = None"
    unfolding u by (simp add: r4_def)
  then show ?thesis using s p m unfolding rin_def by (intro conjI)
qed

theorem pick_row_groups_overruns_array_witness:
  "is_data_loaded example_reader \<and> (0::32 word) \<le> 5 \<and> (5::32 word) - 0 + 1 \<noteq> 0 \<and>
   block_count example_reader \<le> uint (5::32 word) \<and>
   nothrow_new example_env (nat (block_count example_reader)) \<and>
   block_count example_reader = 4 \<and>
   seek_to_block example_env 0 5 False example_reader = Inl UndefinedBehaviour \<and>
   pick_row_groups example_env 0 5
     (example_reader\<lparr>eof := False, end_block := block_count example_reader - 1,
        without_filter := False, include_blocks := None, remain_block := 5 - 0 + 1\<rparr>)
     = Inl UndefinedBehaviour \<and>
   memset_at (replicate (nat (block_count example_reader)) DEL_SATISFIED) (unat (0::32 word))
     DEL_NOT_SATISFIED (unat ((5::32 word) - 0 + 1)) = Inl UndefinedBehaviour \<and>
   (\<exists>r'. seek_to_block example_env 0 5 True example_reader = Inr r' \<and>
         end_block r' = block_count example_reader - 1 \<and> include_blocks r' = None) \<and>
   include_blocks (projr (init_include_blocks example_env 1 2
                            (example_reader\<lparr>remain_block := 2 - 1 + 1\<rparr>)))
     = Some [DEL_SATISFIED, DEL_NOT_SATISFIED, DEL_NOT_SATISFIED, DEL_SATISFIED]"
proof -
  have h1: "is_data_loaded example_reader" by (simp add: example_reader_def)
  have h2: "(0::32 word) \<le> 5" by simp
  have h3: "(5::32 word) - 0 + 1 \<noteq> 0" by simp
  have h4: "block_count example_reader \<le> uint (5::32 word)" by (simp add: example_reader_def)
  have h5: "nothrow_new example_env (nat (block_count example_reader))"
    by (simp add: example_env_def)
  have b: "block_count example_reader = 4" by (simp add: example_reader_def)
  note t = pick_row_groups_overruns_array[OF h1 h2 h3 h4 h5]
  have c: "include_blocks (projr (init_include_blocks example_env 1 2
                            (example_reader\<lparr>remain_block := 2 - 1 + 1\<rparr>)))
     = Some [DEL_SATISFIED, DEL_NOT_SATISFIED, DEL_NOT_SATISFIED, DEL_SATISFIED]"
    by code_simp
  show ?thesis
    using h1 h2 h3 h4 h5 b t[THEN conjunct1] t[THEN conjunct2, THEN conjunct1]
      t[THEN conjunct2, THEN conjunct2, THEN conjunct1]
      t[THEN conjunct2, THEN conjunct2, THEN conjunct2] c
    by (intro conjI)
qed

lemma tightened_count:
  "tightened bs bs' \<Longrightarrow>
   count_list bs DEL_SATISFIED + transitions_into_excluded bs bs' = count_list bs' DEL_SATISFIED"
  unfolding tightened_def transitions_into_excluded_def
  by (induction bs bs' rule: list_all2_induct) auto

lemma count_list_le_length: "count_list xs x \<le> length xs"
  by (induction xs) auto

lemma word_sub_of_nat:
  fixes w w' :: "32 word"
  assumes eq: "w' + of_nat c' = w + of_nat c" and cc: "c \<le> c'" and le: "c' - c \<le> unat w"
  shows "unat w' + (c' - c) = unat w"
proof -
  have "(of_nat c' :: 32 word) = of_nat c + of_nat (c' - c)"
    using cc by (simp flip: of_nat_add)
  with eq have "w' + of_nat (c' - c) = w"
    by (simp add: algebra_simps)
  then have w': "w' = w - of_nat (c' - c)"
    by (simp add: algebra_simps)
  have u: "unat (of_nat (c' - c) :: 32 word) = c' - c"
    using le by (rule le_unat_uoi)
  have "(of_nat (c' - c) :: 32 word) \<le> w"
    using le u by (simp add: word_le_nat_alt)
  then have "unat (w - of_nat (c' - c)) = unat w - unat (of_nat (c' - c) :: 32 word)"
    by (rule unat_sub)
  with u w' le show ?thesis by simp
qed

lemma prune_step_accounting:
  assumes "prune_step r r'" "counter_exact r"
    "include_blocks r = Some bs" "include_blocks r' = Some bs'"
  shows "unat (remain_block r') + transitions_into_excluded bs bs' = unat (remain_block r)"
    and "counter_exact r'"
proof -
  have t: "tightened bs bs'"
    and eq: "remain_block r' + of_nat (count_list bs' DEL_SATISFIED)
               = remain_block r + of_nat (count_list bs DEL_SATISFIED)"
    using assms(1,3,4) by (simp_all add: prune_step_def)
  have len: "length bs' = length bs" using t by (rule tightened_length)
  have cnt: "count_list bs DEL_SATISFIED + transitions_into_excluded bs bs'
               = count_list bs' DEL_SATISFIED"
    using t by (rule tightened_count)
  have ex: "unat (remain_block r) + count_list bs DEL_SATISFIED = length bs"
    using assms(2,3) by (simp add: counter_exact_def)
  have "count_list bs' DEL_SATISFIED \<le> length bs"
    using count_list_le_length[of bs' DEL_SATISFIED] len by simp
  then have le: "count_list bs' DEL_SATISFIED - count_list bs DEL_SATISFIED \<le> unat (remain_block r)"
    using ex by linarith
  have cc: "count_list bs DEL_SATISFIED \<le> count_list bs' DEL_SATISFIED"
    using cnt by linarith
  have "unat (remain_block r') + (count_list bs' DEL_SATISFIED - count_list bs DEL_SATISFIED)
          = unat (remain_block r)"
    using eq cc le by (rule word_sub_of_nat)
  then show "unat (remain_block r') + transitions_into_excluded bs bs' = unat (remain_block r)"
    using cnt by linarith
  then show "counter_exact r'"
    using ex cnt len assms(4) by (simp add: counter_exact_def)
qed

lemma prune_step_Some:
  "prune_step r r' \<Longrightarrow> include_blocks r = Some bs \<Longrightarrow> \<exists>bs'. include_blocks r' = Some bs'"
  by (auto simp: prune_step_def split: option.splits)

lemma init_include_blocks_Inr:
  assumes "include_blocks r = None" "init_include_blocks env first_block last_block r = Inr r1"
  shows "unat first_block + unat (remain_block r) \<le> nat (block_count r)"
    and "r1 = r\<lparr>include_blocks := Some
            (replicate (unat first_block) DEL_SATISFIED
             @ replicate (unat (remain_block r)) DEL_NOT_SATISFIED
             @ replicate (nat (block_count r) - (unat first_block + unat (remain_block r)))
                 DEL_SATISFIED)\<rparr>"
  using assms
  by (auto simp: init_include_blocks_def memset_at_def min_def split: if_splits sum.splits)

lemma count_list_replicate: "count_list (replicate n x) y = (if x = y then n else 0)"
  by (induction n) auto

lemma init_counter_exact:
  assumes "include_blocks r = None" "init_include_blocks env first_block last_block r = Inr r1"
  shows "counter_exact r1" and "remain_block r1 = remain_block r"
  using init_include_blocks_Inr[OF assms]
  by (simp_all add: counter_exact_def count_list_replicate)

lemma pick_row_groups_phases:
  assumes "first_block \<le> last_block" "pick_row_groups env first_block last_block r = Inr r'"
  shows "\<exists>r1 r2.
     init_include_blocks env first_block last_block
       (r\<lparr>vlog_trace := vlog_trace r @ [PickFrom (unat first_block) (unat last_block)]\<rparr>) = Inr r1 \<and>
     pick_delete_row_groups env first_block last_block r1 = Inr r2 \<and>
     pick_condition_row_groups env first_block last_block r2 = Inr r'"
proof -
  have "\<not> last_block < first_block" using assms(1) by (simp add: not_less)
  then show ?thesis
    using assms(2) by (auto simp: pick_row_groups_def Let_def split: sum.splits)
qed

subsection \<open>The remaining-block counter\<close>

lemma block_step_counter:
  "pick_delete_block env dc j r = Inr r' \<or> pick_zone_block env rd cond j r = Inr r'
     \<or> pick_bloom_block env conds i bf j r = Inr r' \<Longrightarrow>
   remain_block r' = remain_block r \<or> remain_block r' = remain_block r - 1"
  by (auto simp: pick_delete_block_def pick_zone_block_def pick_bloom_block_def
      split: option.splits if_splits sum.splits prod.splits)

lemma block_step_prune:
  "pick_delete_block env dc j r = Inr r' \<or> pick_zone_block env rd cond j r = Inr r'
     \<or> pick_bloom_block env conds i bf j r = Inr r' \<Longrightarrow> prune_step r r'"
  using pick_delete_block_step pick_zone_block_step pick_bloom_block_step by blast

lemma block_step_exact:
  assumes step: "pick_delete_block env dc j ra = Inr rb \<or> pick_zone_block env rd cond j ra = Inr rb
     \<or> pick_bloom_block env conds i bf j ra = Inr rb"
    and ex: "counter_exact ra"
  shows "counter_exact rb \<and>
     (\<exists>bsa bsb. include_blocks ra = Some bsa \<and> include_blocks rb = Some bsb \<and>
        transitions_into_excluded bsa bsb \<le> 1 \<and>
        unat (remain_block rb) + transitions_into_excluded bsa bsb = unat (remain_block ra))"
proof -
  obtain bsa where a: "include_blocks ra = Some bsa"
    using ex by (auto simp: counter_exact_def split: option.splits)
  have p: "prune_step ra rb" using step by (rule block_step_prune)
  obtain bsb where b: "include_blocks rb = Some bsb"
    using prune_step_Some[OF p a] by blast
  have acc: "unat (remain_block rb) + transitions_into_excluded bsa bsb = unat (remain_block ra)"
    and exb: "counter_exact rb"
    using prune_step_accounting[OF p ex a b] by simp_all
  have "transitions_into_excluded bsa bsb \<le> 1"
  proof (cases "remain_block rb = remain_block ra")
    case True
    then show ?thesis using acc by simp
  next
    case False
    then have m: "remain_block rb = remain_block ra - 1"
      using block_step_counter[OF step] by simp
    have "remain_block ra \<noteq> 0"
    proof
      assume z: "remain_block ra = 0"
      then have "unat (remain_block rb) = 0" using acc by simp
      then have "remain_block rb = 0" by (simp add: unat_eq_0)
      then show False using False z by simp
    qed
    then have "unat (remain_block rb) = unat (remain_block ra) - 1"
      unfolding m by (rule unat_minus_one)
    then show ?thesis using acc by linarith
  qed
  then show ?thesis using a b acc exb by blast
qed

text \<open>
  What the filtered \<open>seek_to_block\<close> hands to \<open>_pick_row_groups\<close>: the state after the
  data is loaded, with no array and the counter set to \<open>last_block - first_block + 1\<close>;
  the array and the counter that \<open>_pick_row_groups\<close> leaves are those that
  \<open>seek_to_block\<close> returns.
\<close>

lemma pick_row_groups_Inr_range:
  "pick_row_groups env first_block last_block r = Inr r' \<Longrightarrow> first_block \<le> last_block"
  by (auto simp: pick_row_groups_def Let_def not_less split: if_splits)

lemma seek_to_block_internal_fields:
  "seek_to_block_internal block_id flt r = Inr r' \<Longrightarrow>
   include_blocks r' = include_blocks r \<and> remain_block r' = remain_block r"
  by (auto simp: seek_to_block_internal_def split: sum.splits)

lemma seek_to_block_hands_over:
  assumes "seek_to_block env first_block last_block False r0 = Inr r"
  shows "\<exists>r3 r5.
     (if \<not> is_data_loaded r0 then
        (case read_all_data_streams env (reset_readers r0) of
           Inl e \<Rightarrow> Inl e
         | Inr ra \<Rightarrow>
             (case create_reader env ra of
                Inl e \<Rightarrow> Inl e
              | Inr rb \<Rightarrow> Inr (rb\<lparr>is_data_loaded := True\<rparr>)))
      else Inr r0) = Inr r3 \<and>
     pick_row_groups env first_block last_block
       (r3\<lparr>eof := False,
           end_block := (if uint last_block \<ge> block_count r3
                         then block_count r3 - 1 else uint last_block),
           without_filter := False,
           include_blocks := None,
           remain_block := last_block - first_block + 1\<rparr>) = Inr r5 \<and>
     include_blocks r = include_blocks r5 \<and> remain_block r = remain_block r5"
proof -
  obtain r3 where l: "(if \<not> is_data_loaded r0 then
        (case read_all_data_streams env (reset_readers r0) of
           Inl e \<Rightarrow> Inl e
         | Inr ra \<Rightarrow>
             (case create_reader env ra of
                Inl e \<Rightarrow> Inl e
              | Inr rb \<Rightarrow> Inr (rb\<lparr>is_data_loaded := True\<rparr>)))
      else Inr r0) = Inr r3"
    using assms unfolding seek_to_block_def by (auto split: sum.splits)
  define rin where "rin = (r3\<lparr>eof := False,
           end_block := (if uint last_block \<ge> block_count r3
                         then block_count r3 - 1 else uint last_block),
           without_filter := False,
           include_blocks := None,
           remain_block := last_block - first_block + 1\<rparr>)"
  have s: "seek_to_block env first_block last_block False r0 =
        (case pick_row_groups env first_block last_block rin of
           Inl e \<Rightarrow> Inl e
         | Inr r5 \<Rightarrow>
             (case seek_to_block_internal (uint first_block) False r5 of
                Inl e \<Rightarrow> Inl e
              | Inr r6 \<Rightarrow> Inr (r6\<lparr>need_to_seek_block := True\<rparr>)))"
    unfolding seek_to_block_def l by (simp add: Let_def rin_def)
  obtain r5 r6 where p: "pick_row_groups env first_block last_block rin = Inr r5"
    and i: "seek_to_block_internal (uint first_block) False r5 = Inr r6"
    and r: "r = r6\<lparr>need_to_seek_block := True\<rparr>"
    using assms unfolding s by (auto split: sum.splits)
  have "include_blocks r = include_blocks r5 \<and> remain_block r = remain_block r5"
    using seek_to_block_internal_fields[OF i] r by simp
  then show ?thesis using l p unfolding rin_def by blast
qed

lemma pick_row_groups_accounting:
  assumes "include_blocks rin = None" "pick_row_groups env first_block last_block rin = Inr r'"
  shows "\<exists>r1 r2 bs1 bs2 bs'.
     init_include_blocks env first_block last_block
       (rin\<lparr>vlog_trace := vlog_trace rin @ [PickFrom (unat first_block) (unat last_block)]\<rparr>)
       = Inr r1 \<and>
     pick_delete_row_groups env first_block last_block r1 = Inr r2 \<and>
     pick_condition_row_groups env first_block last_block r2 = Inr r' \<and>
     include_blocks r1 = Some bs1 \<and> include_blocks r2 = Some bs2 \<and>
     include_blocks r' = Some bs' \<and>
     remain_block r1 = remain_block rin \<and>
     counter_exact r1 \<and> counter_exact r2 \<and> counter_exact r' \<and>
     unat (remain_block r2) + transitions_into_excluded bs1 bs2 = unat (remain_block r1) \<and>
     unat (remain_block r') + transitions_into_excluded bs2 bs' = unat (remain_block r2) \<and>
     unat (remain_block r') + transitions_into_excluded bs1 bs' = unat (remain_block r1)"
proof -
  define r0 where
    "r0 = rin\<lparr>vlog_trace := vlog_trace rin @ [PickFrom (unat first_block) (unat last_block)]\<rparr>"
  have fl: "first_block \<le> last_block" using assms(2) by (rule pick_row_groups_Inr_range)
  obtain r1 r2 where init: "init_include_blocks env first_block last_block r0 = Inr r1"
    and del: "pick_delete_row_groups env first_block last_block r1 = Inr r2"
    and cond: "pick_condition_row_groups env first_block last_block r2 = Inr r'"
    using pick_row_groups_phases[OF fl assms(2)] unfolding r0_def by blast
  have none: "include_blocks r0 = None" using assms(1) by (simp add: r0_def)
  have ex1: "counter_exact r1" and rem0: "remain_block r1 = remain_block r0"
    using init_counter_exact[OF none init] by simp_all
  have rem1: "remain_block r1 = remain_block rin" using rem0 by (simp add: r0_def)
  obtain bs1 where bs1: "include_blocks r1 = Some bs1"
    using ex1 by (auto simp: counter_exact_def split: option.splits)
  have s12: "prune_step r1 r2" using del by (rule pick_delete_row_groups_step)
  have s2: "prune_step r2 r'" using cond by (rule pick_condition_row_groups_step)
  have s1: "prune_step r1 r'" using s12 s2 by (rule prune_step_trans)
  obtain bs2 where bs2: "include_blocks r2 = Some bs2"
    using prune_step_Some[OF s12 bs1] by blast
  obtain bs' where bs': "include_blocks r' = Some bs'"
    using prune_step_Some[OF s2 bs2] by blast
  have a12: "unat (remain_block r2) + transitions_into_excluded bs1 bs2 = unat (remain_block r1)"
    and ex2: "counter_exact r2"
    using prune_step_accounting[OF s12 ex1 bs1 bs2] by simp_all
  have a2: "unat (remain_block r') + transitions_into_excluded bs2 bs' = unat (remain_block r2)"
    and ex': "counter_exact r'"
    using prune_step_accounting[OF s2 ex2 bs2 bs'] by simp_all
  have a1: "unat (remain_block r') + transitions_into_excluded bs1 bs' = unat (remain_block r1)"
    using prune_step_accounting(1)[OF s1 ex1 bs1 bs'] .
  show ?thesis
    using init del cond bs1 bs2 bs' rem1 ex1 ex2 ex' a12 a2 a1 unfolding r0_def by blast
qed

text \<open>
  Claim C10. In every filtered \<open>seek_to_block\<close> that returns, \<open>_pick_row_groups\<close> is
  run on the state in which \<open>seek_to_block\<close> has removed the array and set the counter
  to \<open>last_block - first_block + 1\<close>, and \<open>first_block \<le> last_block\<close>. After
  \<open>_init_include_blocks\<close> the counter is \<open>last_block - first_block + 1\<close> in 32-bit
  arithmetic, which is the number of blocks of the range unless it wraps around to 0, and
  it is the number of blocks of the array that are not excluded. Over the
  delete-condition phase, over the zone-map and bloom-filter phases, and over the whole
  run the counter goes down by exactly the number of blocks that pass from not excluded
  to excluded; it never goes up, and the counter and the array that \<open>seek_to_block\<close>
  returns are those at the end of the run, the counter still being the number of blocks
  that are not excluded. Every visit of a block by a delete condition, a zone map or a
  bloom filter keeps the counter exact: the visit takes one off the counter when the
  block passes into excluded, which at most the visited block does, and leaves the
  counter as it is otherwise.
\<close>

theorem remain_block_accounting:
  fixes env :: "('stat, 'bf) Env"
  assumes "seek_to_block env first_block last_block False r0 = Inr r"
  shows "(\<exists>r3 r1 r2 r' bs1 bs2 bs'.
     (if \<not> is_data_loaded r0 then
        (case read_all_data_streams env (reset_readers r0) of
           Inl e \<Rightarrow> Inl e
         | Inr ra \<Rightarrow>
             (case create_reader env ra of
                Inl e \<Rightarrow> Inl e
              | Inr rb \<Rightarrow> Inr (rb\<lparr>is_data_loaded := True\<rparr>)))
      else Inr r0) = Inr r3 \<and>
     pick_row_groups env first_block last_block
       (r3\<lparr>eof := False,
           end_block := (if uint last_block \<ge> block_count r3
                         then block_count r3 - 1 else uint last_block),
           without_filter := False,
           include_blocks := None,
           remain_block := last_block - first_block + 1\<rparr>) = Inr r' \<and>
     init_include_blocks env first_block last_block
       (r3\<lparr>eof := False,
           end_block := (if uint last_block \<ge> block_count r3
                         then block_count r3 - 1 else uint last_block),
           without_filter := False,
           include_blocks := None,
           remain_block := last_block - first_block + 1,
           vlog_trace := vlog_trace r3 @ [PickFrom (unat first_block) (unat last_block)]\<rparr>)
       = Inr r1 \<and>
     pick_delete_row_groups env first_block last_block r1 = Inr r2 \<and>
     pick_condition_row_groups env first_block last_block r2 = Inr r' \<and>
     include_blocks r1 = Some bs1 \<and> include_blocks r2 = Some bs2 \<and>
     include_blocks r' = Some bs' \<and>
     include_blocks r = Some bs' \<and> remain_block r = remain_block r' \<and>
     first_block \<le> last_block \<and>
     remain_block r1 = last_block - first_block + 1 \<and>
     (last_block - first_block + 1 \<noteq> 0 \<longrightarrow>
        unat (remain_block r1) = unat last_block - unat first_block + 1) \<and>
     counter_exact r1 \<and> counter_exact r2 \<and> counter_exact r \<and>
     unat (remain_block r2) + transitions_into_excluded bs1 bs2 = unat (remain_block r1) \<and>
     unat (remain_block r) + transitions_into_excluded bs2 bs' = unat (remain_block r2) \<and>
     unat (remain_block r) + transitions_into_excluded bs1 bs' = unat (remain_block r1)) \<and>
   (\<forall>ra rb.
      counter_exact ra \<longrightarrow>
      ((\<exists>delete_condition j. pick_delete_block env delete_condition j ra = Inr rb) \<or>
       (\<exists>index_reader cond j. pick_zone_block env index_reader cond j ra = Inr rb) \<or>
       (\<exists>conds i bf_reader j. pick_bloom_block env conds i bf_reader j ra = Inr rb)) \<longrightarrow>
      counter_exact rb \<and>
      (\<exists>bsa bsb. include_blocks ra = Some bsa \<and> include_blocks rb = Some bsb \<and>
         transitions_into_excluded bsa bsb \<le> 1 \<and>
         unat (remain_block rb) + transitions_into_excluded bsa bsb = unat (remain_block ra)))"
proof (intro conjI allI impI)
  obtain r3 r' where l: "(if \<not> is_data_loaded r0 then
        (case read_all_data_streams env (reset_readers r0) of
           Inl e \<Rightarrow> Inl e
         | Inr ra \<Rightarrow>
             (case create_reader env ra of
                Inl e \<Rightarrow> Inl e
              | Inr rb \<Rightarrow> Inr (rb\<lparr>is_data_loaded := True\<rparr>)))
      else Inr r0) = Inr r3"
    and p: "pick_row_groups env first_block last_block
       (r3\<lparr>eof := False,
           end_block := (if uint last_block \<ge> block_count r3
                         then block_count r3 - 1 else uint last_block),
           without_filter := False,
           include_blocks := None,
           remain_block := last_block - first_block + 1\<rparr>) = Inr r'"
    and ib: "include_blocks r = include_blocks r'" and rb: "remain_block r = remain_block r'"
    using seek_to_block_hands_over[OF assms] by blast
  define rin where "rin = (r3\<lparr>eof := False,
           end_block := (if uint last_block \<ge> block_count r3
                         then block_count r3 - 1 else uint last_block),
           without_filter := False,
           include_blocks := None,
           remain_block := last_block - first_block + 1\<rparr>)"
  have none: "include_blocks rin = None" by (simp add: rin_def)
  have rem: "remain_block rin = last_block - first_block + 1" by (simp add: rin_def)
  have p': "pick_row_groups env first_block last_block rin = Inr r'"
    using p by (simp only: rin_def)
  have fl: "first_block \<le> last_block" using p' by (rule pick_row_groups_Inr_range)
  obtain r1 r2 bs1 bs2 bs' where
    init: "init_include_blocks env first_block last_block
       (rin\<lparr>vlog_trace := vlog_trace rin @ [PickFrom (unat first_block) (unat last_block)]\<rparr>)
       = Inr r1"
    and del: "pick_delete_row_groups env first_block last_block r1 = Inr r2"
    and cond: "pick_condition_row_groups env first_block last_block r2 = Inr r'"
    and bs1: "include_blocks r1 = Some bs1" and bs2: "include_blocks r2 = Some bs2"
    and bs': "include_blocks r' = Some bs'"
    and rem1: "remain_block r1 = remain_block rin"
    and ex1: "counter_exact r1" and ex2: "counter_exact r2" and ex': "counter_exact r'"
    and a12: "unat (remain_block r2) + transitions_into_excluded bs1 bs2 = unat (remain_block r1)"
    and a2: "unat (remain_block r') + transitions_into_excluded bs2 bs' = unat (remain_block r2)"
    and a1: "unat (remain_block r') + transitions_into_excluded bs1 bs' = unat (remain_block r1)"
    using pick_row_groups_accounting[OF none p'] by blast
  have init': "init_include_blocks env first_block last_block
       (r3\<lparr>eof := False,
           end_block := (if uint last_block \<ge> block_count r3
                         then block_count r3 - 1 else uint last_block),
           without_filter := False,
           include_blocks := None,
           remain_block := last_block - first_block + 1,
           vlog_trace := vlog_trace r3 @ [PickFrom (unat first_block) (unat last_block)]\<rparr>)
       = Inr r1"
    using init by (simp add: rin_def)
  have size: "remain_block r1 = last_block - first_block + 1" using rem1 rem by simp
  have usize: "last_block - first_block + 1 \<noteq> 0 \<longrightarrow>
        unat (remain_block r1) = unat last_block - unat first_block + 1"
    unfolding size using unat_range_size[OF fl] by blast
  have ibr: "include_blocks r = Some bs'" using ib bs' by simp
  have exr: "counter_exact r" using ex' by (simp add: counter_exact_def ibr bs' rb)
  have a2r: "unat (remain_block r) + transitions_into_excluded bs2 bs' = unat (remain_block r2)"
    using a2 rb by simp
  have a1r: "unat (remain_block r) + transitions_into_excluded bs1 bs' = unat (remain_block r1)"
    using a1 rb by simp
  show "\<exists>r3 r1 r2 r' bs1 bs2 bs'.
     (if \<not> is_data_loaded r0 then
        (case read_all_data_streams env (reset_readers r0) of
           Inl e \<Rightarrow> Inl e
         | Inr ra \<Rightarrow>
             (case create_reader env ra of
                Inl e \<Rightarrow> Inl e
              | Inr rb \<Rightarrow> Inr (rb\<lparr>is_data_loaded := True\<rparr>)))
      else Inr r0) = Inr r3 \<and>
     pick_row_groups env first_block last_block
       (r3\<lparr>eof := False,
           end_block := (if uint last_block \<ge> block_count r3
                         then block_count r3 - 1 else uint last_block),
           without_filter := False,
           include_blocks := None,
           remain_block := last_block - first_block + 1\<rparr>) = Inr r' \<and>
     init_include_blocks env first_block last_block
       (r3\<lparr>eof := False,
           end_block := (if uint last_block \<ge> block_count r3
                         then block_count r3 - 1 else uint last_block),
           without_filter := False,
           include_blocks := None,
           remain_block := last_block - first_block + 1,
           vlog_trace := vlog_trace r3 @ [PickFrom (unat first_block) (unat last_block)]\<rparr>)
       = Inr r1 \<and>
     pick_delete_row_groups env first_block last_block r1 = Inr r2 \<and>
     pick_condition_row_groups env first_block last_block r2 = Inr r' \<and>
     include_blocks r1 = Some bs1 \<and> include_blocks r2 = Some bs2 \<and>
     include_blocks r' = Some bs' \<and>
     include_blocks r = Some bs' \<and> remain_block r = remain_block r' \<and>
     first_block \<le> last_block \<and>
     remain_block r1 = last_block - first_block + 1 \<and>
     (last_block - first_block + 1 \<noteq> 0 \<longrightarrow>
        unat (remain_block r1) = unat last_block - unat first_block + 1) \<and>
     counter_exact r1 \<and> counter_exact r2 \<and> counter_exact r \<and>
     unat (remain_block r2) + transitions_into_excluded bs1 bs2 = unat (remain_block r1) \<and>
     unat (remain_block r) + transitions_into_excluded bs2 bs' = unat (remain_block r2) \<and>
     unat (remain_block r) + transitions_into_excluded bs1 bs' = unat (remain_block r1)"
    apply (rule exI[of _ r3], rule exI[of _ r1], rule exI[of _ r2], rule exI[of _ r'])
    apply (rule exI[of _ bs1], rule exI[of _ bs2], rule exI[of _ bs'])
    using l p init' del cond bs1 bs2 bs' ibr rb fl size usize ex1 ex2 exr a12 a2r a1r
    by (intro conjI)
next
  fix ra rb
  assume ex: "counter_exact ra"
    and step: "(\<exists>delete_condition j. pick_delete_block env delete_condition j ra = Inr rb) \<or>
       (\<exists>index_reader cond j. pick_zone_block env index_reader cond j ra = Inr rb) \<or>
       (\<exists>conds i bf_reader j. pick_bloom_block env conds i bf_reader j ra = Inr rb)"
  from step have r: "counter_exact rb \<and>
      (\<exists>bsa bsb. include_blocks ra = Some bsa \<and> include_blocks rb = Some bsb \<and>
         transitions_into_excluded bsa bsb \<le> 1 \<and>
         unat (remain_block rb) + transitions_into_excluded bsa bsb = unat (remain_block ra))"
  proof (elim disjE exE)
    fix delete_condition :: "'stat DeleteConditions" and j
    assume "pick_delete_block env delete_condition j ra = Inr rb"
    then show ?thesis
      using block_step_exact[where env = env and dc = delete_condition and j = j
          and ra = ra and rb = rb, OF _ ex] by blast
  next
    fix index_reader and cond :: "('stat, 'bf) CondColumn" and j
    assume "pick_zone_block env index_reader cond j ra = Inr rb"
    then show ?thesis
      using block_step_exact[where env = env and rd = index_reader and cond = cond and j = j
          and ra = ra and rb = rb, OF _ ex] by blast
  next
    fix conds :: "(nat \<times> ('stat, 'bf) CondColumn) list" and i bf_reader j
    assume "pick_bloom_block env conds i bf_reader j ra = Inr rb"
    then show ?thesis
      using block_step_exact[where env = env and conds = conds and i = i and bf = bf_reader
          and j = j and ra = ra and rb = rb, OF _ ex] by blast
  qed
  from r show "counter_exact rb" by (rule conjunct1)
  from r show "\<exists>bsa bsb. include_blocks ra = Some bsa \<and> include_blocks rb = Some bsb \<and>
         transitions_into_excluded bsa bsb \<le> 1 \<and>
         unat (remain_block rb) + transitions_into_excluded bsa bsb = unat (remain_block ra)"
    by (rule conjunct2)
qed


theorem remain_block_accounting_witness:
  "seek_to_block example_env 0 3 False example_reader
     = Inr (projr (seek_to_block example_env 0 3 False example_reader)) \<and>
   is_data_loaded example_reader \<and> (0::32 word) \<le> 3 \<and> (3::32 word) - 0 + 1 \<noteq> 0 \<and>
   (\<exists>r1 r2 r' bs1 bs2 bs'.
     pick_row_groups example_env 0 3
       (example_reader\<lparr>eof := False,
           end_block := (if uint (3::32 word) \<ge> block_count example_reader
                         then block_count example_reader - 1 else uint (3::32 word)),
           without_filter := False,
           include_blocks := None,
           remain_block := 3 - 0 + 1\<rparr>) = Inr r' \<and>
     init_include_blocks example_env 0 3
       (example_reader\<lparr>eof := False,
           end_block := (if uint (3::32 word) \<ge> block_count example_reader
                         then block_count example_reader - 1 else uint (3::32 word)),
           without_filter := False,
           include_blocks := None,
           remain_block := 3 - 0 + 1,
           vlog_trace := vlog_trace example_reader
                           @ [PickFrom (unat (0::32 word)) (unat (3::32 word))]\<rparr>) = Inr r1 \<and>
     pick_delete_row_groups example_env 0 3 r1 = Inr r2 \<and>
     pick_condition_row_groups example_env 0 3 r2 = Inr r' \<and>
     include_blocks r1 = Some bs1 \<and> include_blocks r2 = Some bs2 \<and>
     include_blocks r' = Some bs' \<and>
     include_blocks (projr (seek_to_block example_env 0 3 False example_reader)) = Some bs' \<and>
     remain_block (projr (seek_to_block example_env 0 3 False example_reader)) = remain_block r' \<and>
     remain_block r1 = 3 - 0 + 1 \<and>
     unat (remain_block r1) = unat (3::32 word) - unat (0::32 word) + 1 \<and>
     counter_exact r1 \<and> counter_exact r2 \<and>
     unat (remain_block r2) + transitions_into_excluded bs1 bs2 = unat (remain_block r1) \<and>
     unat (remain_block (projr (seek_to_block example_env 0 3 False example_reader))) + transitions_into_excluded bs2 bs'
       = unat (remain_block r2) \<and>
     unat (remain_block (projr (seek_to_block example_env 0 3 False example_reader))) + transitions_into_excluded bs1 bs'
       = unat (remain_block r1)) \<and>
   counter_exact (projr (seek_to_block example_env 0 3 False example_reader)) \<and>
   remain_block (projr (seek_to_block example_env 0 3 False example_reader)) = 3 \<and>
   include_blocks (projr (seek_to_block example_env 0 3 False example_reader))
     = Some [DEL_NOT_SATISFIED, DEL_NOT_SATISFIED, DEL_SATISFIED, DEL_PARTIAL_SATISFIED] \<and>
   counter_exact example_pruned \<and>
   pick_zone_block example_env (Some example_index_reader)
     \<lparr>eval_stat = (\<lambda>stat. stat \<noteq> 0), eval_bf = (\<lambda>entry. True)\<rparr> 0 example_pruned
     = Inr (projr (pick_zone_block example_env (Some example_index_reader)
                     \<lparr>eval_stat = (\<lambda>stat. stat \<noteq> 0), eval_bf = (\<lambda>entry. True)\<rparr> 0
                     example_pruned)) \<and>
   counter_exact (projr (pick_zone_block example_env (Some example_index_reader)
                     \<lparr>eval_stat = (\<lambda>stat. stat \<noteq> 0), eval_bf = (\<lambda>entry. True)\<rparr> 0
                     example_pruned)) \<and>
   remain_block (projr (pick_zone_block example_env (Some example_index_reader)
                     \<lparr>eval_stat = (\<lambda>stat. stat \<noteq> 0), eval_bf = (\<lambda>entry. True)\<rparr> 0
                     example_pruned)) = 2"
proof -
  let ?S = "seek_to_block example_env 0 3 False example_reader"
  let ?Z = "pick_zone_block example_env (Some example_index_reader)
              \<lparr>eval_stat = (\<lambda>stat. stat \<noteq> 0), eval_bf = (\<lambda>entry. True)\<rparr> 0 example_pruned"
  have "\<not> isl ?S" by code_simp
  then have h: "?S = Inr (projr ?S)" by (cases ?S) auto
  note t = remain_block_accounting[OF h]
  have dl: "is_data_loaded example_reader" by (simp add: example_reader_def)
  have le: "(0::32 word) \<le> 3" by simp
  have nz: "(3::32 word) - 0 + 1 \<noteq> 0" by simp
  from t[THEN conjunct1] obtain r3 r1 r2 r' bs1 bs2 bs' where
    l: "(if \<not> is_data_loaded example_reader then
        (case read_all_data_streams example_env (reset_readers example_reader) of
           Inl e \<Rightarrow> Inl e
         | Inr ra \<Rightarrow>
             (case create_reader example_env ra of
                Inl e \<Rightarrow> Inl e
              | Inr rb \<Rightarrow> Inr (rb\<lparr>is_data_loaded := True\<rparr>)))
      else Inr example_reader) = Inr r3"
    and p: "pick_row_groups example_env 0 3
       (r3\<lparr>eof := False,
           end_block := (if uint (3::32 word) \<ge> block_count r3
                         then block_count r3 - 1 else uint (3::32 word)),
           without_filter := False,
           include_blocks := None,
           remain_block := 3 - 0 + 1\<rparr>) = Inr r'"
    and init: "init_include_blocks example_env 0 3
       (r3\<lparr>eof := False,
           end_block := (if uint (3::32 word) \<ge> block_count r3
                         then block_count r3 - 1 else uint (3::32 word)),
           without_filter := False,
           include_blocks := None,
           remain_block := 3 - 0 + 1,
           vlog_trace := vlog_trace r3 @ [PickFrom (unat (0::32 word)) (unat (3::32 word))]\<rparr>)
       = Inr r1"
    and del: "pick_delete_row_groups example_env 0 3 r1 = Inr r2"
    and cond: "pick_condition_row_groups example_env 0 3 r2 = Inr r'"
    and bs1: "include_blocks r1 = Some bs1" and bs2: "include_blocks r2 = Some bs2"
    and bs': "include_blocks r' = Some bs'"
    and ibr: "include_blocks (projr ?S) = Some bs'"
    and rb: "remain_block (projr ?S) = remain_block r'"
    and size: "remain_block r1 = 3 - 0 + 1"
    and usize: "(3::32 word) - 0 + 1 \<noteq> 0 \<longrightarrow>
        unat (remain_block r1) = unat (3::32 word) - unat (0::32 word) + 1"
    and ex1: "counter_exact r1" and ex2: "counter_exact r2"
    and exr: "counter_exact (projr ?S)"
    and a12: "unat (remain_block r2) + transitions_into_excluded bs1 bs2 = unat (remain_block r1)"
    and a2: "unat (remain_block (projr ?S)) + transitions_into_excluded bs2 bs'
               = unat (remain_block r2)"
    and a1: "unat (remain_block (projr ?S)) + transitions_into_excluded bs1 bs'
               = unat (remain_block r1)"
    by (elim exE conjE) (rule that)
  have r3: "r3 = example_reader" using l dl by simp
  have us: "unat (remain_block r1) = unat (3::32 word) - unat (0::32 word) + 1"
    using usize nz by (rule mp)
  have run: "\<exists>r1 r2 r' bs1 bs2 bs'.
     pick_row_groups example_env 0 3
       (example_reader\<lparr>eof := False,
           end_block := (if uint (3::32 word) \<ge> block_count example_reader
                         then block_count example_reader - 1 else uint (3::32 word)),
           without_filter := False,
           include_blocks := None,
           remain_block := 3 - 0 + 1\<rparr>) = Inr r' \<and>
     init_include_blocks example_env 0 3
       (example_reader\<lparr>eof := False,
           end_block := (if uint (3::32 word) \<ge> block_count example_reader
                         then block_count example_reader - 1 else uint (3::32 word)),
           without_filter := False,
           include_blocks := None,
           remain_block := 3 - 0 + 1,
           vlog_trace := vlog_trace example_reader
                           @ [PickFrom (unat (0::32 word)) (unat (3::32 word))]\<rparr>) = Inr r1 \<and>
     pick_delete_row_groups example_env 0 3 r1 = Inr r2 \<and>
     pick_condition_row_groups example_env 0 3 r2 = Inr r' \<and>
     include_blocks r1 = Some bs1 \<and> include_blocks r2 = Some bs2 \<and>
     include_blocks r' = Some bs' \<and>
     include_blocks (projr (seek_to_block example_env 0 3 False example_reader)) = Some bs' \<and>
     remain_block (projr (seek_to_block example_env 0 3 False example_reader)) = remain_block r' \<and>
     remain_block r1 = 3 - 0 + 1 \<and>
     unat (remain_block r1) = unat (3::32 word) - unat (0::32 word) + 1 \<and>
     counter_exact r1 \<and> counter_exact r2 \<and>
     unat (remain_block r2) + transitions_into_excluded bs1 bs2 = unat (remain_block r1) \<and>
     unat (remain_block (projr (seek_to_block example_env 0 3 False example_reader))) + transitions_into_excluded bs2 bs'
       = unat (remain_block r2) \<and>
     unat (remain_block (projr (seek_to_block example_env 0 3 False example_reader))) + transitions_into_excluded bs1 bs'
       = unat (remain_block r1)"
    apply (rule exI[of _ r1], rule exI[of _ r2], rule exI[of _ r'])
    apply (rule exI[of _ bs1], rule exI[of _ bs2], rule exI[of _ bs'])
    using p[unfolded r3] init[unfolded r3] del cond bs1 bs2 bs' ibr rb size us ex1 ex2 a12 a2 a1
    by (intro conjI)
  have c: "remain_block (projr ?S) = 3" by code_simp
  have d: "include_blocks (projr ?S)
     = Some [DEL_NOT_SATISFIED, DEL_NOT_SATISFIED, DEL_SATISFIED, DEL_PARTIAL_SATISFIED]"
    by code_simp
  have e: "counter_exact example_pruned" by code_simp
  have "\<not> isl ?Z" by code_simp
  then have z: "?Z = Inr (projr ?Z)" by (cases ?Z) auto
  then have st: "(\<exists>delete_condition j.
                    pick_delete_block example_env delete_condition j example_pruned
                      = Inr (projr ?Z)) \<or>
       (\<exists>index_reader cond j. pick_zone_block example_env index_reader cond j example_pruned
                      = Inr (projr ?Z)) \<or>
       (\<exists>conds i bf_reader j. pick_bloom_block example_env conds i bf_reader j example_pruned
                      = Inr (projr ?Z))"
    by blast
  have e': "counter_exact (projr ?Z)"
    using t[THEN conjunct2, rule_format, OF e st] by (rule conjunct1)
  have c': "remain_block (projr ?Z) = 2" by code_simp
  show ?thesis
    using h dl le nz run exr c d e z e' c' by (intro conjI)
qed

subsection \<open>Disposition strictness\<close>

lemma prune_step_excluded:
  "prune_step r r' \<Longrightarrow> block_disposition r k = Some DEL_SATISFIED
     \<Longrightarrow> block_disposition r' k = Some DEL_SATISFIED"
  by (auto simp: prune_step_def block_disposition_def tightened_length
      split: option.splits if_splits dest: tightened_nth)

lemma del_eval_columns_indices:
  "indices r' = indices r \<Longrightarrow> del_eval_columns env r' j cols p = del_eval_columns env r j cols p"
  by (induction env r j cols p rule: del_eval_columns.induct) (auto simp: Let_def split: option.splits)

lemma pick_delete_block_no_match:
  assumes "block_disposition r k = Some DEL_PARTIAL_SATISFIED"
    and "del_eval_columns env r k (del_cond_columns dc) False = Inr (p, True)
         \<or> del_cond_columns dc = []"
    and "pick_delete_block env dc j r = Inr r'"
  shows "block_disposition r' k = Some DEL_PARTIAL_SATISFIED \<and> indices r' = indices r"
proof (cases "j = k")
  case True
  then show ?thesis
    using assms
    by (auto simp: pick_delete_block_def block_disposition_def
        split: option.splits if_splits sum.splits prod.splits)
next
  case False
  then show ?thesis
    using assms(1,3)
    by (auto simp: pick_delete_block_def block_disposition_def
        split: option.splits if_splits sum.splits prod.splits)
qed

lemma pick_delete_blocks_no_match:
  assumes "block_disposition r k = Some DEL_PARTIAL_SATISFIED"
    and "del_eval_columns env r k (del_cond_columns dc) False = Inr (p, True)
         \<or> del_cond_columns dc = []"
    and "pick_delete_blocks env dc js r = Inr r'"
  shows "block_disposition r' k = Some DEL_PARTIAL_SATISFIED"
  using assms
proof (induction js arbitrary: r)
  case Nil
  then show ?case by simp
next
  case (Cons j js)
  from Cons.prems(3) obtain r1 where s: "pick_delete_block env dc j r = Inr r1"
    and rest: "pick_delete_blocks env dc js r1 = Inr r'"
    by (auto split: sum.splits)
  have k: "block_disposition r1 k = Some DEL_PARTIAL_SATISFIED" and i: "indices r1 = indices r"
    using pick_delete_block_no_match[OF Cons.prems(1,2) s] by simp_all
  have "del_eval_columns env r1 k (del_cond_columns dc) False = Inr (p, True)
         \<or> del_cond_columns dc = []"
    unfolding del_eval_columns_indices[OF i] by (rule Cons.prems(2))
  then show ?case using Cons.IH[OF k _ rest] by blast
qed

text \<open>
  Claim C2. A block that is excluded stays excluded under every later delete condition,
  every zone-map evaluation and every bloom-filter evaluation, and so under the whole
  delete-condition phase and the whole zone-map and bloom-filter phases. A block that
  requires a row filter keeps that disposition under a later delete condition whose
  outcome for the block is no match (a column is not satisfied, or the condition has no
  columns).
\<close>

theorem disposition_strictness:
  fixes env :: "('stat, 'bf) Env"
  shows
  "(block_disposition r k = Some DEL_SATISFIED \<longrightarrow>
      (\<forall>delete_condition js r'.
          pick_delete_blocks env delete_condition js r = Inr r'
            \<longrightarrow> block_disposition r' k = Some DEL_SATISFIED) \<and>
      (\<forall>index_reader cond js r'.
          pick_zone_blocks env index_reader cond js r = Inr r'
            \<longrightarrow> block_disposition r' k = Some DEL_SATISFIED) \<and>
      (\<forall>conds i bf_reader js r'.
          pick_bloom_blocks env conds i bf_reader js r = Inr r'
            \<longrightarrow> block_disposition r' k = Some DEL_SATISFIED) \<and>
      (\<forall>first_block last_block r'.
          pick_delete_row_groups env first_block last_block r = Inr r'
            \<longrightarrow> block_disposition r' k = Some DEL_SATISFIED) \<and>
      (\<forall>first_block last_block r'.
          pick_condition_row_groups env first_block last_block r = Inr r'
            \<longrightarrow> block_disposition r' k = Some DEL_SATISFIED)) \<and>
   (block_disposition r k = Some DEL_PARTIAL_SATISFIED \<longrightarrow>
      (\<forall>delete_condition js r' p.
          (del_eval_columns env r k (del_cond_columns delete_condition) False = Inr (p, True)
           \<or> del_cond_columns delete_condition = []) \<longrightarrow>
          pick_delete_blocks env delete_condition js r = Inr r'
            \<longrightarrow> block_disposition r' k = Some DEL_PARTIAL_SATISFIED))"
proof (intro conjI impI allI)
  fix delete_condition js r'
  assume "block_disposition r k = Some DEL_SATISFIED"
    and "pick_delete_blocks env delete_condition js r = Inr r'"
  then show "block_disposition r' k = Some DEL_SATISFIED"
    using prune_step_excluded[OF pick_delete_blocks_step] by blast
next
  fix index_reader cond js r'
  assume "block_disposition r k = Some DEL_SATISFIED"
    and "pick_zone_blocks env index_reader cond js r = Inr r'"
  then show "block_disposition r' k = Some DEL_SATISFIED"
    using prune_step_excluded[OF pick_zone_blocks_step] by blast
next
  fix conds i bf_reader js r'
  assume "block_disposition r k = Some DEL_SATISFIED"
    and "pick_bloom_blocks env conds i bf_reader js r = Inr r'"
  then show "block_disposition r' k = Some DEL_SATISFIED"
    using prune_step_excluded[OF pick_bloom_blocks_step] by blast
next
  fix first_block last_block r'
  assume "block_disposition r k = Some DEL_SATISFIED"
    and "pick_delete_row_groups env first_block last_block r = Inr r'"
  then show "block_disposition r' k = Some DEL_SATISFIED"
    using prune_step_excluded[OF pick_delete_row_groups_step] by blast
next
  fix first_block last_block r'
  assume "block_disposition r k = Some DEL_SATISFIED"
    and "pick_condition_row_groups env first_block last_block r = Inr r'"
  then show "block_disposition r' k = Some DEL_SATISFIED"
    using prune_step_excluded[OF pick_condition_row_groups_step] by blast
next
  fix delete_condition js r' p
  assume "block_disposition r k = Some DEL_PARTIAL_SATISFIED"
    and "del_eval_columns env r k (del_cond_columns delete_condition) False = Inr (p, True)
           \<or> del_cond_columns delete_condition = []"
    and "pick_delete_blocks env delete_condition js r = Inr r'"
  then show "block_disposition r' k = Some DEL_PARTIAL_SATISFIED"
    by (rule pick_delete_blocks_no_match)
qed

theorem disposition_strictness_witness:
  "block_disposition example_pruned 2 = Some DEL_SATISFIED \<and>
   pick_delete_blocks example_env example_no_match_condition [0, 1, 2, 3] example_pruned
     = Inr (projr (pick_delete_blocks example_env example_no_match_condition [0, 1, 2, 3]
                     example_pruned)) \<and>
   block_disposition
     (projr (pick_delete_blocks example_env example_no_match_condition [0, 1, 2, 3] example_pruned))
     2 = Some DEL_SATISFIED \<and>
   block_disposition example_pruned 3 = Some DEL_PARTIAL_SATISFIED \<and>
   del_eval_columns example_env example_pruned 3 (del_cond_columns example_no_match_condition) False
     = Inr (False, True) \<and>
   block_disposition
     (projr (pick_delete_blocks example_env example_no_match_condition [0, 1, 2, 3] example_pruned))
     3 = Some DEL_PARTIAL_SATISFIED"
proof -
  let ?X = "pick_delete_blocks example_env example_no_match_condition [0, 1, 2, 3] example_pruned"
  have h1: "block_disposition example_pruned 2 = Some DEL_SATISFIED" by code_simp
  have "\<not> isl ?X" by code_simp
  then have h2: "?X = Inr (projr ?X)" by (cases ?X) auto
  have h3: "block_disposition example_pruned 3 = Some DEL_PARTIAL_SATISFIED" by code_simp
  have h4: "del_eval_columns example_env example_pruned 3
              (del_cond_columns example_no_match_condition) False = Inr (False, True)"
    by code_simp
  have c2: "block_disposition (projr ?X) 2 = Some DEL_SATISFIED"
    using disposition_strictness[of example_pruned 2 example_env, THEN conjunct1, THEN mp,
        OF h1, THEN conjunct1, THEN spec, THEN spec, THEN spec, THEN mp, OF h2] .
  have c3: "block_disposition (projr ?X) 3 = Some DEL_PARTIAL_SATISFIED"
    using disposition_strictness[of example_pruned 3 example_env, THEN conjunct2, THEN mp,
        OF h3, THEN spec, THEN spec, THEN spec, THEN spec, THEN mp, OF disjI1, OF h4,
        THEN mp, OF h2] .
  show ?thesis
    using h1 h2 h3 h4 c2 c3 by (intro conjI)
qed

subsection \<open>Zero-column delete conditions\<close>

lemma pick_delete_block_zero_columns:
  assumes "del_cond_columns dc = []" "include_blocks r = Some bs" "j < length bs"
  shows "pick_delete_block env dc j r = Inr r"
proof (cases "bs ! j")
  case DEL_SATISFIED
  then show ?thesis using assms by (simp add: pick_delete_block_def)
next
  case DEL_NOT_SATISFIED
  then have "bs[j := DEL_NOT_SATISFIED] = bs"
    by (metis list_update_id)
  then show ?thesis using assms DEL_NOT_SATISFIED by (simp add: pick_delete_block_def)
next
  case DEL_PARTIAL_SATISFIED
  then show ?thesis using assms by (simp add: pick_delete_block_def)
qed

text \<open>
  Claim C1, as amended. A delete condition without columns is handled like a condition
  that does not match: applied to any blocks of the array it returns normally and leaves
  every disposition, the counter and the telemetry as they were; no block is excluded.
\<close>

theorem zero_column_delete_condition:
  fixes env :: "('stat, 'bf) Env"
  assumes "del_cond_columns delete_condition = []"
    and "include_blocks r = Some bs" "set js \<subseteq> {..<length bs}"
  shows "pick_delete_blocks env delete_condition js r = Inr r"
  using assms(3)
  by (induction js) (simp_all add: pick_delete_block_zero_columns[OF assms(1,2)])

theorem zero_column_delete_condition_witness:
  "del_cond_columns example_zero_column_condition = [] \<and>
   include_blocks example_pruned
     = Some [DEL_NOT_SATISFIED, DEL_NOT_SATISFIED, DEL_SATISFIED, DEL_PARTIAL_SATISFIED] \<and>
   set [0, 1, 2, 3 :: nat]
     \<subseteq> {..<length [DEL_NOT_SATISFIED, DEL_NOT_SATISFIED, DEL_SATISFIED, DEL_PARTIAL_SATISFIED]} \<and>
   pick_delete_blocks example_env example_zero_column_condition [0, 1, 2, 3] example_pruned
     = Inr example_pruned"
proof -
  have h1: "del_cond_columns example_zero_column_condition = []"
    by (simp add: example_zero_column_condition_def)
  have h2: "include_blocks example_pruned
     = Some [DEL_NOT_SATISFIED, DEL_NOT_SATISFIED, DEL_SATISFIED, DEL_PARTIAL_SATISFIED]"
    by (simp add: example_pruned_def)
  have h3: "set [0, 1, 2, 3 :: nat]
     \<subseteq> {..<length [DEL_NOT_SATISFIED, DEL_NOT_SATISFIED, DEL_SATISFIED, DEL_PARTIAL_SATISFIED]}"
    by simp
  show ?thesis
    using h1 h2 h3 zero_column_delete_condition[OF h1 h2 h3, of example_env] by (intro conjI)
qed

text \<open>
  Claim C1 as stated fails: with one applicable delete condition without columns and two
  included blocks, both blocks stay included and the counter stays 2.
\<close>

theorem zero_column_condition_counterexample:
  "\<not> isl (pick_delete_row_groups
            (example_env\<lparr>delete_conditions := [example_zero_column_condition]\<rparr>) 0 1
            (example_reader\<lparr>include_blocks := Some [DEL_NOT_SATISFIED, DEL_NOT_SATISFIED],
                            remain_block := 2, block_count := 2\<rparr>)) \<and>
   include_blocks (projr (pick_delete_row_groups
            (example_env\<lparr>delete_conditions := [example_zero_column_condition]\<rparr>) 0 1
            (example_reader\<lparr>include_blocks := Some [DEL_NOT_SATISFIED, DEL_NOT_SATISFIED],
                            remain_block := 2, block_count := 2\<rparr>)))
     = Some [DEL_NOT_SATISFIED, DEL_NOT_SATISFIED] \<and>
   remain_block (projr (pick_delete_row_groups
            (example_env\<lparr>delete_conditions := [example_zero_column_condition]\<rparr>) 0 1
            (example_reader\<lparr>include_blocks := Some [DEL_NOT_SATISFIED, DEL_NOT_SATISFIED],
                            remain_block := 2, block_count := 2\<rparr>))) = 2 \<and>
   filter_version example_zero_column_condition > segment_version_first example_env"
  by code_simp

subsection \<open>The bloom-filter threshold\<close>

text \<open>
  Claim C7, as amended. The threshold is 10. Without user conditions \<open>_pick_row_groups\<close>
  returns after the delete conditions, whatever the counter is. With user conditions, the
  bloom-filter phase is skipped when the counter after the zone-map phase is below 10
  (the state is the one after the zone-map phase, with one more trace line), and runs
  otherwise; when it runs the counter does not go up.
\<close>

theorem bloom_filter_threshold:
  fixes env :: "('stat, 'bf) Env"
  assumes "first_block \<le> last_block" "last_block - first_block + 1 \<noteq> 0"
    and "include_blocks r = None" "remain_block r = last_block - first_block + 1"
    and "pick_row_groups env first_block last_block r = Inr r'"
  shows "MIN_FILTER_BLOCK_NUM = 10 \<and>
    (\<exists>r1 r2.
      init_include_blocks env first_block last_block
        (r\<lparr>vlog_trace := vlog_trace r @ [PickFrom (unat first_block) (unat last_block)]\<rparr>) = Inr r1 \<and>
      pick_delete_row_groups env first_block last_block r1 = Inr r2 \<and>
      (case conditions env of
         None \<Rightarrow> r' = r2
       | Some conds \<Rightarrow>
           if conds = [] then r' = r2
           else
             (\<exists>r3. pick_zone_columns env conds first_block last_block r2 = Inr r3 \<and>
                (if remain_block r3 < MIN_FILTER_BLOCK_NUM
                 then r' = r3\<lparr>vlog_trace :=
                                 vlog_trace r3 @ [BloomFilterIgnored (unat (remain_block r3))]\<rparr>
                 else
                   (\<exists>r4. pick_bloom_columns env conds (load_bf_columns env)
                            first_block last_block r3 = Inr r4 \<and>
                      r' = r4\<lparr>vlog_trace :=
                                 vlog_trace r4 @ [PickRowGroupsFinished (unat (remain_block r4))]\<rparr> \<and>
                      remain_block r4 \<le> remain_block r3)))))"
proof -
  define r0 where
    "r0 = r\<lparr>vlog_trace := vlog_trace r @ [PickFrom (unat first_block) (unat last_block)]\<rparr>"
  obtain r1 r2 where init: "init_include_blocks env first_block last_block r0 = Inr r1"
    and del: "pick_delete_row_groups env first_block last_block r1 = Inr r2"
    and cond: "pick_condition_row_groups env first_block last_block r2 = Inr r'"
    using pick_row_groups_phases[OF assms(1,5)] unfolding r0_def by blast
  have none: "include_blocks r0 = None" using assms(3) by (simp add: r0_def)
  have ex1: "counter_exact r1" using init_counter_exact(1)[OF none init] .
  obtain bs1 where bs1: "include_blocks r1 = Some bs1"
    using ex1 by (auto simp: counter_exact_def split: option.splits)
  have s12: "prune_step r1 r2" using del by (rule pick_delete_row_groups_step)
  obtain bs2 where bs2: "include_blocks r2 = Some bs2"
    using prune_step_Some[OF s12 bs1] by blast
  have ex2: "counter_exact r2" using prune_step_accounting(2)[OF s12 ex1 bs1 bs2] .
  have main: "(case conditions env of
         None \<Rightarrow> r' = r2
       | Some conds \<Rightarrow>
           if conds = [] then r' = r2
           else
             (\<exists>r3. pick_zone_columns env conds first_block last_block r2 = Inr r3 \<and>
                (if remain_block r3 < MIN_FILTER_BLOCK_NUM
                 then r' = r3\<lparr>vlog_trace :=
                                 vlog_trace r3 @ [BloomFilterIgnored (unat (remain_block r3))]\<rparr>
                 else
                   (\<exists>r4. pick_bloom_columns env conds (load_bf_columns env)
                            first_block last_block r3 = Inr r4 \<and>
                      r' = r4\<lparr>vlog_trace :=
                                 vlog_trace r4 @ [PickRowGroupsFinished (unat (remain_block r4))]\<rparr> \<and>
                      remain_block r4 \<le> remain_block r3))))"
  proof (cases "conditions env")
    case None
    then show ?thesis using cond by (simp add: pick_condition_row_groups_def)
  next
    case (Some conds)
    show ?thesis
    proof (cases "conds = []")
      case True
      then show ?thesis using cond Some by (simp add: pick_condition_row_groups_def)
    next
      case False
      then obtain r3 where zone: "pick_zone_columns env conds first_block last_block r2 = Inr r3"
        using cond Some by (auto simp: pick_condition_row_groups_def split: sum.splits)
      have s23: "prune_step r2 r3" using zone by (rule pick_zone_columns_step)
      obtain bs3 where bs3: "include_blocks r3 = Some bs3"
        using prune_step_Some[OF s23 bs2] by blast
      have ex3: "counter_exact r3" using prune_step_accounting(2)[OF s23 ex2 bs2 bs3] .
      show ?thesis
      proof (cases "remain_block r3 < MIN_FILTER_BLOCK_NUM")
        case True
        then show ?thesis
          using cond Some False zone by (simp add: pick_condition_row_groups_def)
      next
        case ge: False
        then obtain r4 where bloom: "pick_bloom_columns env conds (load_bf_columns env)
                            first_block last_block r3 = Inr r4"
          and r': "r' = r4\<lparr>vlog_trace :=
                                 vlog_trace r4 @ [PickRowGroupsFinished (unat (remain_block r4))]\<rparr>"
          using cond Some False zone
          by (auto simp: pick_condition_row_groups_def split: sum.splits)
        have s34: "prune_step r3 r4" using bloom by (rule pick_bloom_columns_step)
        obtain bs4 where bs4: "include_blocks r4 = Some bs4"
          using prune_step_Some[OF s34 bs3] by blast
        have "unat (remain_block r4) + transitions_into_excluded bs3 bs4 = unat (remain_block r3)"
          using prune_step_accounting(1)[OF s34 ex3 bs3 bs4] .
        then have "remain_block r4 \<le> remain_block r3"
          by (simp add: word_le_nat_alt)
        then show ?thesis
          using Some False zone ge bloom r' by simp
      qed
    qed
  qed
  show ?thesis
    using init del main unfolding r0_def by (auto simp: MIN_FILTER_BLOCK_NUM_def)
qed

theorem bloom_filter_threshold_witness:
  "(0::32 word) \<le> 9 \<and> (9::32 word) - 0 + 1 \<noteq> 0 \<and> include_blocks example_bloom_reader = None \<and>
   remain_block example_bloom_reader = 9 - 0 + 1 \<and>
   pick_row_groups example_bloom_env 0 9 example_bloom_reader
     = Inr (projr (pick_row_groups example_bloom_env 0 9 example_bloom_reader)) \<and>
   remain_block (projr (pick_row_groups example_bloom_env 0 9 example_bloom_reader)) = 9 \<and>
   block_disposition (projr (pick_row_groups example_bloom_env 0 9 example_bloom_reader)) 0
     = Some DEL_SATISFIED \<and>
   MIN_FILTER_BLOCK_NUM = 10"
proof -
  let ?X = "pick_row_groups example_bloom_env 0 9 example_bloom_reader"
  have h1: "(0::32 word) \<le> 9" by simp
  have h2: "(9::32 word) - 0 + 1 \<noteq> 0" by simp
  have h3: "include_blocks example_bloom_reader = None"
    by (simp add: example_bloom_reader_def example_reader_def)
  have h4: "remain_block example_bloom_reader = 9 - 0 + 1"
    by (simp add: example_bloom_reader_def example_reader_def)
  have "\<not> isl ?X" by code_simp
  then have h5: "?X = Inr (projr ?X)" by (cases ?X) auto
  have c1: "remain_block (projr ?X) = 9" by code_simp
  have c2: "block_disposition (projr ?X) 0 = Some DEL_SATISFIED" by code_simp
  have c3: "MIN_FILTER_BLOCK_NUM = 10"
    using bloom_filter_threshold[OF h1 h2 h3 h4 h5] by (rule conjunct1)
  show ?thesis
    using h1 h2 h3 h4 h5 c1 c2 c3 by (intro conjI)
qed

text \<open>
  Claim C7 as stated fails: in a scan without user conditions, with 10 remaining blocks,
  which is not below the threshold, the run ends after the delete conditions; the trace
  has neither the line of the skipped nor the line of the finished bloom-filter phase,
  which the run with a user condition has.
\<close>

theorem bloom_filter_threshold_counterexample:
  "conditions (example_bloom_env\<lparr>conditions := None, load_bf_columns := []\<rparr>) = None \<and>
   \<not> isl (pick_row_groups (example_bloom_env\<lparr>conditions := None, load_bf_columns := []\<rparr>)
            0 9 example_bloom_reader) \<and>
   remain_block (projr (pick_row_groups
                          (example_bloom_env\<lparr>conditions := None, load_bf_columns := []\<rparr>)
                          0 9 example_bloom_reader)) = 10 \<and>
   \<not> remain_block (projr (pick_row_groups
                            (example_bloom_env\<lparr>conditions := None, load_bf_columns := []\<rparr>)
                            0 9 example_bloom_reader)) < MIN_FILTER_BLOCK_NUM \<and>
   vlog_trace (projr (pick_row_groups
                        (example_bloom_env\<lparr>conditions := None, load_bf_columns := []\<rparr>)
                        0 9 example_bloom_reader))
     = [PickFrom 0 9, PickForDelete 0 9] \<and>
   vlog_trace (projr (pick_row_groups example_bloom_env 0 9 example_bloom_reader))
     = [PickFrom 0 9, PickForDelete 0 9, PickRowGroupsFinished 9]"
  by code_simp

subsection \<open>Rows loaded by a scan\<close>



lemma columns_readable_cong:
  "column_readers r' = column_readers r \<Longrightarrow> column_indices r' = column_indices r \<Longrightarrow>
   columns_readable r' cids = columns_readable r cids"
  by (simp add: columns_readable_def)






lemma scanning_not_eof: "scanning batch n bs k r \<Longrightarrow> \<not> eof r"
  by (simp add: scanning_def)














subsection \<open>Seek failures inside \<open>get_block\<close>\<close>

text \<open>
  Claim C5. At this input the seek of column 0 fails with a status that is not
  end-of-stream. \<open>_seek_to_block_directly\<close> returns \<open>OLAP_ERR_COLUMN_SEEK_ERROR\<close> and
  leaves the state as it was, with the seek still pending; \<open>get_block\<close> does not look at
  that status, loads a batch of 1024 rows and returns \<open>OLAP_SUCCESS\<close>. With an
  end-of-stream status \<open>_seek_to_block_directly\<close> returns \<open>OLAP_ERR_DATA_EOF\<close>, and
  \<open>get_block\<close> returns \<open>OLAP_SUCCESS\<close> all the same.
\<close>

theorem get_block_drops_seek_status:
  "map_sum id fst
     (seek_to_block_directly example_seek_error_env (next_block_id example_reader)
        (batch_columns example_batch) example_reader)
     = Inr OLAP_ERR_COLUMN_SEEK_ERROR \<and>
   need_to_seek_block
     (snd (projr (seek_to_block_directly example_seek_error_env (next_block_id example_reader)
                    (batch_columns example_batch) example_reader))) \<and>
   \<not> isl (get_block example_seek_error_env example_batch example_reader) \<and>
   batch_size (snd (projr (get_block example_seek_error_env example_batch example_reader)))
     = 1024 \<and>
   raw_rows_read (fst (projr (get_block example_seek_error_env example_batch example_reader)))
     = 1024 \<and>
   next_block_id (fst (projr (get_block example_seek_error_env example_batch example_reader)))
     = 1 \<and>
   map_sum id fst
     (seek_to_block_directly
        (example_env\<lparr>column_reader_seek := (\<lambda>cid block_id. OLAP_ERR_COLUMN_STREAM_EOF)\<rparr>)
        (next_block_id example_reader) (batch_columns example_batch) example_reader)
     = Inr OLAP_ERR_DATA_EOF \<and>
   \<not> isl (get_block
            (example_env\<lparr>column_reader_seek := (\<lambda>cid block_id. OLAP_ERR_COLUMN_STREAM_EOF)\<rparr>)
            example_batch example_reader)"
  by code_simp

subsection \<open>Stream offsets\<close>

lemma read_data_streams_offset:
  "read_data_streams env messages off r = Inr (off', r') \<Longrightarrow>
   off' = off + sum_list (map message_length messages)"
proof (induction messages arbitrary: off r)
  case Nil
  then show ?case by simp
next
  case (Cons message messages)
  then show ?case
    by (simp add: Let_def split: if_splits) (fastforce simp: add.assoc)+
qed

lemma read_data_streams_append:
  "read_data_streams env (xs @ ys) off r =
     (case read_data_streams env xs off r of
        Inl e \<Rightarrow> Inl e
      | Inr (off', r') \<Rightarrow> read_data_streams env ys off' r')"
  by (induction xs arbitrary: off r) (simp_all add: Let_def)

lemma load_index_streams_offset:
  "load_index_streams env messages off uc idx r = Inr (off', uc', idx', r') \<Longrightarrow>
   off' = off + sum_list (map message_length messages)"
proof (induction messages arbitrary: off uc idx r)
  case Nil
  then show ?case by simp
next
  case (Cons message messages)
  show ?case
  proof (cases "index_stream_needed env message")
    case False
    then show ?thesis using Cons.prems Cons.IH by (fastforce simp: add.assoc)
  next
    case True
    then obtain uc1 r1 where
      "load_index_streams env messages (off + message_length message) uc1 (idx + 1) r1
         = Inr (off', uc', idx', r')"
      using Cons.prems by (auto split: sum.splits)
    from Cons.IH[OF this] show ?thesis by (simp add: add.assoc)
  qed
qed

lemma load_index_streams_append:
  "load_index_streams env (xs @ ys) off uc idx r =
     (case load_index_streams env xs off uc idx r of
        Inl e \<Rightarrow> Inl e
      | Inr (off', uc', idx', r') \<Rightarrow> load_index_streams env ys off' uc' idx' r')"
  by (induction xs arbitrary: off uc idx r) (auto split: sum.splits)

text \<open>
  Claim C3. In both loops over the stream descriptors the offset at which descriptor
  \<open>i\<close> is handled is the offset at the start plus the lengths of the descriptors before
  it, in 64-bit arithmetic, whether those were needed or skipped: running a loop over the
  list is running it over the first \<open>i\<close> descriptors and then over the rest from that
  offset. For the lengths 100, 200 and 150 after a header of 500 bytes the data streams
  are created at the offsets 500, 600 and 800, the third at 800 also when the second is
  skipped, and the third row index is read at offset 800 when the second is skipped.
\<close>

theorem stream_offsets_accumulate:
  fixes env :: "('stat, 'bf) Env"
  shows
  "load_index_streams env messages h is_using_cache cache_handle_index r =
     (case load_index_streams env (take i messages) h is_using_cache cache_handle_index r of
        Inl e \<Rightarrow> Inl e
      | Inr (off', using_cache', cache_handle_index', r') \<Rightarrow>
          load_index_streams env (drop i messages)
            (h + sum_list (map message_length (take i messages)))
            using_cache' cache_handle_index' r') \<and>
   read_data_streams env messages h r =
     (case read_data_streams env (take i messages) h r of
        Inl e \<Rightarrow> Inl e
      | Inr (off', r') \<Rightarrow>
          read_data_streams env (drop i messages)
            (h + sum_list (map message_length (take i messages))) r') \<and>
   map (streams (projr (read_all_data_streams
                          (example_streams_env\<lparr>stream_info := example_data_streams,
                                                include_columns := {10, 11, 12}\<rparr>)
                          example_reader)))
     [(10, OTHER_KIND 1), (11, OTHER_KIND 1), (10, OTHER_KIND 2)]
     = [Some (500, 100), Some (600, 200), Some (800, 150)] \<and>
   map (streams (projr (read_all_data_streams
                          (example_streams_env\<lparr>stream_info := example_data_streams\<rparr>)
                          example_reader)))
     [(10, OTHER_KIND 1), (11, OTHER_KIND 1), (10, OTHER_KIND 2)]
     = [Some (500, 100), None, Some (800, 150)] \<and>
   map (map_option reader_buffer
          \<circ> indices (projr (load_index (example_streams_env\<lparr>stream_info := example_index_streams\<rparr>)
                                 False example_reader)))
     [10, 11, 12]
     = [Some ''other bytes'', None, Some ''bytes at 800'']"
proof (intro conjI)
  have "load_index_streams env (take i messages @ drop i messages) h is_using_cache
          cache_handle_index r =
     (case load_index_streams env (take i messages) h is_using_cache cache_handle_index r of
        Inl e \<Rightarrow> Inl e
      | Inr (off', using_cache', cache_handle_index', r') \<Rightarrow>
          load_index_streams env (drop i messages)
            (h + sum_list (map message_length (take i messages)))
            using_cache' cache_handle_index' r')"
    unfolding load_index_streams_append
    by (auto split: sum.splits dest: load_index_streams_offset)
  then show "load_index_streams env messages h is_using_cache cache_handle_index r =
     (case load_index_streams env (take i messages) h is_using_cache cache_handle_index r of
        Inl e \<Rightarrow> Inl e
      | Inr (off', using_cache', cache_handle_index', r') \<Rightarrow>
          load_index_streams env (drop i messages)
            (h + sum_list (map message_length (take i messages)))
            using_cache' cache_handle_index' r')"
    by simp
  have "read_data_streams env (take i messages @ drop i messages) h r =
     (case read_data_streams env (take i messages) h r of
        Inl e \<Rightarrow> Inl e
      | Inr (off', r') \<Rightarrow>
          read_data_streams env (drop i messages)
            (h + sum_list (map message_length (take i messages))) r')"
    unfolding read_data_streams_append
    by (auto split: sum.splits dest: read_data_streams_offset)
  then show "read_data_streams env messages h r =
     (case read_data_streams env (take i messages) h r of
        Inl e \<Rightarrow> Inl e
      | Inr (off', r') \<Rightarrow>
          read_data_streams env (drop i messages)
            (h + sum_list (map message_length (take i messages))) r')"
    by simp
  show "map (streams (projr (read_all_data_streams
                          (example_streams_env\<lparr>stream_info := example_data_streams,
                                                include_columns := {10, 11, 12}\<rparr>)
                          example_reader)))
     [(10, OTHER_KIND 1), (11, OTHER_KIND 1), (10, OTHER_KIND 2)]
     = [Some (500, 100), Some (600, 200), Some (800, 150)]"
    by code_simp
  show "map (streams (projr (read_all_data_streams
                          (example_streams_env\<lparr>stream_info := example_data_streams\<rparr>)
                          example_reader)))
     [(10, OTHER_KIND 1), (11, OTHER_KIND 1), (10, OTHER_KIND 2)]
     = [Some (500, 100), None, Some (800, 150)]"
    by code_simp
  show "map (map_option reader_buffer
          \<circ> indices (projr (load_index (example_streams_env\<lparr>stream_info := example_index_streams\<rparr>)
                                 False example_reader)))
     [10, 11, 12]
     = [Some ''other bytes'', None, Some ''bytes at 800'']"
    by code_simp
qed

theorem stream_offsets_accumulate_witness:
  "read_data_streams (example_streams_env\<lparr>stream_info := example_data_streams\<rparr>)
     example_data_streams 500 example_reader =
     (case read_data_streams (example_streams_env\<lparr>stream_info := example_data_streams\<rparr>)
             (take 2 example_data_streams) 500 example_reader of
        Inl e \<Rightarrow> Inl e
      | Inr (off', r') \<Rightarrow>
          read_data_streams (example_streams_env\<lparr>stream_info := example_data_streams\<rparr>)
            (drop 2 example_data_streams)
            (500 + sum_list (map message_length (take 2 example_data_streams))) r') \<and>
   (500 :: 64 word) + sum_list (map message_length (take 2 example_data_streams)) = 800"
proof -
  have "(500 :: 64 word) + sum_list (map message_length (take 2 example_data_streams)) = 800"
    by code_simp
  then show ?thesis
    using stream_offsets_accumulate[of "example_streams_env\<lparr>stream_info := example_data_streams\<rparr>"
        example_data_streams 500 False 0 example_reader 2, THEN conjunct2, THEN conjunct1]
    by (intro conjI)
qed

subsection \<open>Index loading\<close>

lemma fetch_index_stream_fields:
  "fetch_index_stream env m off uc idx r = Inr (uc', buf, r1) \<Longrightarrow>
   indices r1 = indices r \<and> bloom_filters r1 = bloom_filters r \<and> block_count r1 = block_count r"
  by (auto simp: fetch_index_stream_def Let_def split: if_splits option.splits prod.splits)

lemma parse_index_stream_count:
  "parse_index_stream env m uc buf r1 = Inr r2 \<Longrightarrow> block_count r2 = expected_blocks env"
  by (auto simp: parse_index_stream_def Let_def split: if_splits prod.splits)

lemma parse_index_stream_agree:
  "parse_index_stream env m uc buf r1 = Inr r2 \<Longrightarrow> readers_agree env r1 \<Longrightarrow> readers_agree env r2"
  by (auto simp: parse_index_stream_def Let_def readers_agree_def split: if_splits prod.splits)

lemma load_index_stream_agree:
  assumes "load_index_stream env m off uc idx r = Inr (uc', r')" "readers_agree env r"
  shows "readers_agree env r'" and "block_count r' = expected_blocks env"
proof -
  obtain uc1 buf r1 where f: "fetch_index_stream env m off uc idx r = Inr (uc1, buf, r1)"
    and p: "parse_index_stream env m uc1 buf r1 = Inr r'"
    using assms(1) by (auto simp: load_index_stream_def split: sum.splits)
  have "readers_agree env r1"
    using assms(2) fetch_index_stream_fields[OF f] by (simp add: readers_agree_def)
  then show "readers_agree env r'" using p by (rule parse_index_stream_agree[rotated])
  show "block_count r' = expected_blocks env" using p by (rule parse_index_stream_count)
qed

lemma load_index_streams_agree:
  "load_index_streams env messages off uc idx r = Inr (off', uc', idx', r') \<Longrightarrow>
   readers_agree env r \<Longrightarrow>
   readers_agree env r' \<and> idx \<le> idx' \<and>
   (idx < idx' \<longrightarrow> block_count r' = expected_blocks env) \<and>
   (idx = idx' \<longrightarrow> block_count r' = block_count r)"
proof (induction messages arbitrary: off uc idx r)
  case Nil
  then show ?case by simp
next
  case (Cons m messages)
  show ?case
  proof (cases "index_stream_needed env m")
    case False
    then have "load_index_streams env messages (off + message_length m) uc idx r
                 = Inr (off', uc', idx', r')"
      using Cons.prems(1) by simp
    from Cons.IH[OF this Cons.prems(2)] show ?thesis .
  next
    case True
    then obtain uc1 r1 where b: "load_index_stream env m off uc idx r = Inr (uc1, r1)"
      and rest: "load_index_streams env messages (off + message_length m) uc1 (idx + 1) r1
                   = Inr (off', uc', idx', r')"
      using Cons.prems(1) by (auto split: sum.splits)
    note a = load_index_stream_agree[OF b Cons.prems(2)]
    from Cons.IH[OF rest a(1)]
    have ih: "readers_agree env r'" "idx + 1 \<le> idx'"
      "idx + 1 < idx' \<longrightarrow> block_count r' = expected_blocks env"
      "idx + 1 = idx' \<longrightarrow> block_count r' = block_count r1"
      by simp_all
    have "block_count r' = expected_blocks env"
      using ih(2,3,4) a(2) by (cases "idx + 1 < idx'") auto
    then show ?thesis using ih(1,2) by simp
  qed
qed

lemma parse_index_stream_mismatch:
  assumes "nothrow_new_reader env (message_column_unique_id m) (message_kind m)"
    and "index_reader_init env (message_kind m) buf = (OLAP_SUCCESS, c)"
    and "c \<noteq> expected_blocks env"
  shows "parse_index_stream env m uc buf r1 = Inl (Returned OLAP_ERR_FILE_FORMAT_ERROR)"
  using assms by (simp add: parse_index_stream_def Let_def)

text \<open>
  Claim C4. When \<open>_load_index\<close> succeeds, every zone-map reader and every bloom-filter
  reader that it recorded has as many entries as the recorded block count. When the
  descriptors before a needed descriptor were loaded, one structure at least was parsed
  among them, and the needed descriptor is then parsed with an entry count that differs
  from the block count recorded so far, \<open>_load_index\<close> returns the format error.
\<close>

theorem block_count_agreement:
  fixes env :: "('stat, 'bf) Env"
  shows
  "(load_index env is_using_cache r = Inr r' \<longrightarrow>
      (\<forall>u rd. indices r' u = Some rd \<or> bloom_filters r' u = Some rd
         \<longrightarrow> reader_entry_count rd = block_count r')) \<and>
   (\<forall>xs m ys off1 uc1 idx1 r1 uc2 buf r2 c.
      index_stream_init env = OLAP_SUCCESS \<longrightarrow>
      stream_info env = xs @ m # ys \<longrightarrow>
      load_index_streams env xs (header_length env) is_using_cache 0
        (r\<lparr>cache_handle :=
             vector_resize (cache_handle r) (included_row_index_stream_num env) None,
           indices := Map.empty, bloom_filters := Map.empty\<rparr>)
        = Inr (off1, uc1, idx1, r1) \<longrightarrow>
      0 < idx1 \<longrightarrow>
      index_stream_needed env m \<longrightarrow>
      fetch_index_stream env m off1 uc1 idx1 r1 = Inr (uc2, buf, r2) \<longrightarrow>
      nothrow_new_reader env (message_column_unique_id m) (message_kind m) \<longrightarrow>
      index_reader_init env (message_kind m) buf = (OLAP_SUCCESS, c) \<longrightarrow>
      c \<noteq> block_count r1 \<longrightarrow>
        load_index env is_using_cache r = Inl (Returned OLAP_ERR_FILE_FORMAT_ERROR))"
proof (intro conjI impI allI)
  fix u rd
  assume ok: "load_index env is_using_cache r = Inr r'"
    and rd: "indices r' u = Some rd \<or> bloom_filters r' u = Some rd"
  define r0 where "r0 = r\<lparr>cache_handle :=
             vector_resize (cache_handle r) (included_row_index_stream_num env) None,
           indices := Map.empty, bloom_filters := Map.empty\<rparr>"
  obtain off' uc' idx' where
    l: "load_index_streams env (stream_info env) (header_length env) is_using_cache 0 r0
          = Inr (off', uc', idx', r')"
    using ok unfolding load_index_def r0_def
    by (auto simp: Let_def split: if_splits sum.splits)
  have "readers_agree env r0" by (simp add: readers_agree_def r0_def)
  from load_index_streams_agree[OF l this] have "readers_agree env r'" by simp
  then show "reader_entry_count rd = block_count r'"
    using rd unfolding readers_agree_def by metis
next
  fix xs m ys off1 uc1 idx1 r1 uc2 buf r2 c
  assume init: "index_stream_init env = OLAP_SUCCESS"
    and si: "stream_info env = xs @ m # ys"
    and pre: "load_index_streams env xs (header_length env) is_using_cache 0
        (r\<lparr>cache_handle :=
             vector_resize (cache_handle r) (included_row_index_stream_num env) None,
           indices := Map.empty, bloom_filters := Map.empty\<rparr>)
        = Inr (off1, uc1, idx1, r1)"
    and parsed: "0 < idx1"
    and needed: "index_stream_needed env m"
    and fetch: "fetch_index_stream env m off1 uc1 idx1 r1 = Inr (uc2, buf, r2)"
    and alloc: "nothrow_new_reader env (message_column_unique_id m) (message_kind m)"
    and parse: "index_reader_init env (message_kind m) buf = (OLAP_SUCCESS, c)"
    and mismatch: "c \<noteq> block_count r1"
  define r0 where "r0 = r\<lparr>cache_handle :=
             vector_resize (cache_handle r) (included_row_index_stream_num env) None,
           indices := Map.empty, bloom_filters := Map.empty\<rparr>"
  have "readers_agree env r0" by (simp add: readers_agree_def r0_def)
  from load_index_streams_agree[OF pre[folded r0_def] this] parsed
  have "block_count r1 = expected_blocks env" by simp
  then have "c \<noteq> expected_blocks env" using mismatch by simp
  from parse_index_stream_mismatch[OF alloc parse this]
  have "load_index_stream env m off1 uc1 idx1 r1 = Inl (Returned OLAP_ERR_FILE_FORMAT_ERROR)"
    using fetch by (simp add: load_index_stream_def)
  then have "load_index_streams env (xs @ m # ys) (header_length env) is_using_cache 0 r0
               = Inl (Returned OLAP_ERR_FILE_FORMAT_ERROR)"
    unfolding load_index_streams_append using pre[folded r0_def] needed by simp
  then show "load_index env is_using_cache r = Inl (Returned OLAP_ERR_FILE_FORMAT_ERROR)"
    using init si unfolding load_index_def r0_def by (simp add: Let_def)
qed

theorem block_count_agreement_witness:
  "load_index (example_streams_env\<lparr>stream_info := example_index_streams\<rparr>) False example_reader
     = Inr (projr (load_index (example_streams_env\<lparr>stream_info := example_index_streams\<rparr>)
                     False example_reader)) \<and>
   map_option reader_entry_count
     (indices (projr (load_index (example_streams_env\<lparr>stream_info := example_index_streams\<rparr>)
                        False example_reader)) 12) = Some 4 \<and>
   reader_entry_count
     (the (indices (projr (load_index (example_streams_env\<lparr>stream_info := example_index_streams\<rparr>)
                             False example_reader)) 12))
     = block_count (projr (load_index (example_streams_env\<lparr>stream_info := example_index_streams\<rparr>)
                             False example_reader)) \<and>
   index_stream_init example_mismatch_env = OLAP_SUCCESS \<and>
   stream_info example_mismatch_env
     = take 2 example_index_streams @ example_index_streams ! 2 # [] \<and>
   load_index_streams example_mismatch_env (take 2 example_index_streams)
     (header_length example_mismatch_env) False 0
     (example_reader\<lparr>cache_handle :=
                        vector_resize (cache_handle example_reader)
                          (included_row_index_stream_num example_mismatch_env) None,
                      indices := Map.empty, bloom_filters := Map.empty\<rparr>)
     = Inr example_mismatch_prefix \<and>
   0 < fst (snd (snd example_mismatch_prefix)) \<and>
   index_stream_needed example_mismatch_env (example_index_streams ! 2) \<and>
   fetch_index_stream example_mismatch_env (example_index_streams ! 2)
     (fst example_mismatch_prefix) (fst (snd example_mismatch_prefix))
     (fst (snd (snd example_mismatch_prefix))) (snd (snd (snd example_mismatch_prefix)))
     = Inr example_mismatch_fetch \<and>
   nothrow_new_reader example_mismatch_env
     (message_column_unique_id (example_index_streams ! 2))
     (message_kind (example_index_streams ! 2)) \<and>
   index_reader_init example_mismatch_env (message_kind (example_index_streams ! 2))
     (fst (snd example_mismatch_fetch)) = (OLAP_SUCCESS, 7) \<and>
   7 \<noteq> block_count (snd (snd (snd example_mismatch_prefix))) \<and>
   load_index example_mismatch_env False example_reader
     = Inl (Returned OLAP_ERR_FILE_FORMAT_ERROR)"
proof -
  let ?E = "example_streams_env\<lparr>stream_info := example_index_streams\<rparr>"
  let ?L = "load_index ?E False example_reader"
  let ?r0 = "example_reader\<lparr>cache_handle :=
                        vector_resize (cache_handle example_reader)
                          (included_row_index_stream_num example_mismatch_env) None,
                      indices := Map.empty, bloom_filters := Map.empty\<rparr>"
  let ?X = "load_index_streams example_mismatch_env (take 2 example_index_streams)
              (header_length example_mismatch_env) False 0 ?r0"
  let ?m = "example_index_streams ! 2"
  let ?F = "fetch_index_stream example_mismatch_env ?m
     (fst example_mismatch_prefix) (fst (snd example_mismatch_prefix))
     (fst (snd (snd example_mismatch_prefix))) (snd (snd (snd example_mismatch_prefix)))"
  have "\<not> isl ?L" by code_simp
  then have a1: "?L = Inr (projr ?L)" by (cases ?L) auto
  have a2: "map_option reader_entry_count (indices (projr ?L) 12) = Some 4" by code_simp
  then have a3: "indices (projr ?L) 12 = Some (the (indices (projr ?L) 12))
                 \<or> bloom_filters (projr ?L) 12 = Some (the (indices (projr ?L) 12))"
    by (cases "indices (projr ?L) 12") auto
  have a4: "reader_entry_count (the (indices (projr ?L) 12)) = block_count (projr ?L)"
    using block_count_agreement[of ?E False example_reader "projr ?L",
        THEN conjunct1, rule_format, OF a1 a3] .
  have b1: "index_stream_init example_mismatch_env = OLAP_SUCCESS"
    by (simp add: example_mismatch_env_def example_streams_env_def example_env_def)
  have b2: "stream_info example_mismatch_env
              = take 2 example_index_streams @ ?m # []"
    by (simp add: example_mismatch_env_def example_index_streams_def)
  have "\<not> isl ?X" by code_simp
  then have b3: "?X = Inr example_mismatch_prefix"
    unfolding example_mismatch_prefix_def by (cases ?X) auto
  then have b3': "?X = Inr (fst example_mismatch_prefix, fst (snd example_mismatch_prefix),
                       fst (snd (snd example_mismatch_prefix)),
                       snd (snd (snd example_mismatch_prefix)))"
    by simp
  have b4: "0 < fst (snd (snd example_mismatch_prefix))" by code_simp
  have b5: "index_stream_needed example_mismatch_env ?m" by code_simp
  have "\<not> isl ?F" by code_simp
  then have b6: "?F = Inr example_mismatch_fetch"
    unfolding example_mismatch_fetch_def by (cases ?F) auto
  then have b6': "?F = Inr (fst example_mismatch_fetch, fst (snd example_mismatch_fetch),
                       snd (snd example_mismatch_fetch))"
    by simp
  have b7: "nothrow_new_reader example_mismatch_env (message_column_unique_id ?m)
              (message_kind ?m)"
    by code_simp
  have b8: "index_reader_init example_mismatch_env (message_kind ?m)
              (fst (snd example_mismatch_fetch)) = (OLAP_SUCCESS, 7)"
    by code_simp
  have b9: "7 \<noteq> block_count (snd (snd (snd example_mismatch_prefix)))" by code_simp
  have c: "load_index example_mismatch_env False example_reader
             = Inl (Returned OLAP_ERR_FILE_FORMAT_ERROR)"
    using block_count_agreement[of example_mismatch_env False example_reader,
        THEN conjunct2, rule_format, OF b1 b2 b3' b4 b5 b6' b7 b8 b9] .
  show ?thesis
    using a1 a2 a4 b1 b2 b3 b4 b5 b6 b7 b8 b9 c by (intro conjI)
qed

text \<open>
  Claim C6. With caching disabled, the row index of column 10 is found in the shared cache
  and the row index of column 12 is not. After the hit \<open>is_using_cache\<close> stays set for the
  rest of the loop: the buffer read for column 12 is inserted into the shared cache, its
  handle is kept and its reader is told that the cache owns the buffer. With an empty
  cache and caching disabled nothing is inserted and the reader owns its buffer.
\<close>

theorem load_index_cache_flag_sticks:
  "lru_cache example_cached_reader (''segment'', 12, ROW_INDEX) = None \<and>
   \<not> isl (load_index (example_streams_env\<lparr>stream_info := example_index_streams\<rparr>) False
            example_cached_reader) \<and>
   lru_cache (projr (load_index (example_streams_env\<lparr>stream_info := example_index_streams\<rparr>)
                       False example_cached_reader)) (''segment'', 12, ROW_INDEX)
     = Some ''bytes at 800'' \<and>
   map_option reader_is_using_cache
     (indices (projr (load_index (example_streams_env\<lparr>stream_info := example_index_streams\<rparr>)
                        False example_cached_reader)) 12) = Some True \<and>
   cache_handle (projr (load_index (example_streams_env\<lparr>stream_info := example_index_streams\<rparr>)
                          False example_cached_reader))
     = [Some (''segment'', 10, ROW_INDEX), Some (''segment'', 12, ROW_INDEX), None] \<and>
   lru_cache (projr (load_index (example_streams_env\<lparr>stream_info := example_index_streams\<rparr>)
                       False example_reader)) (''segment'', 12, ROW_INDEX) = None \<and>
   map_option reader_is_using_cache
     (indices (projr (load_index (example_streams_env\<lparr>stream_info := example_index_streams\<rparr>)
                        False example_reader)) 12) = Some False"
  by code_simp

end
